theory Spec2Isabelle
  imports Complex_Main
begin

section \<open>Numbers, random draws and errors\<close>

text \<open>
  The program is TypeScript; its numbers are IEEE-754 doubles. Hit points, stats, levels,
  powers and damage amounts are integers far below \<open>2^53\<close>, on which addition,
  subtraction, comparison and \<open>Math.floor\<close>/\<open>Math.max\<close> are exact; they are modelled
  as \<open>int\<close>. A product of an integer with \<open>1.5\<close>, \<open>0.5\<close> or \<open>2\<close> is exact
  as well and is computed in \<open>rat\<close>. Every other division or product of the damage
  formula can be inexact in a double; there the model applies the parameter \<open>fl\<close>, the
  rounding of an exact result to the double the machine stores. No property below
  assumes anything about \<open>fl\<close>.

  \<open>Math.random()\<close> is the second parameter: an infinite supply of draws, read from the
  front. Each call of \<open>Math.random()\<close> in the source is one call of \<open>random\<close>.
\<close>

type_synonym rng = "nat \<Rightarrow> rat"

definition random :: "rng \<Rightarrow> rat \<times> rng" where
  "random g = (g 0, (\<lambda>n. g (Suc n)))"

text \<open>
  What a \<open>throw\<close> carries: an \<open>Error\<close> with its message, or the \<open>TypeError\<close>
  the engine raises on a property read of \<open>undefined\<close>.
\<close>

datatype js_error = Error string | TypeError

section \<open>pokemon-battle.ts: data\<close>

text \<open>
  A move document of the remote API, reduced to the fields the simulator reads:
  \<open>name\<close>, \<open>power\<close> (\<open>null\<close> for status moves), \<open>type.name\<close> and
  \<open>damage_class?.name\<close>.
\<close>

record move =
  mv_name :: string
  power :: "nat option"
  mv_type :: string
  damage_class :: "string option"

record stats =
  hp :: int
  attack :: int
  defense :: int
  special_attack :: int
  special_defense :: int
  speed :: int

text \<open>
  The object \<open>fetchPokemonForBattle\<close> returns. \<open>types\<close> holds the \<open>type.name\<close> of each
  entry of the API's type list, in order.
\<close>

record pokemon =
  name :: string
  types :: "string list"
  level :: int
  stats :: stats
  current_hp :: int
  moves :: "move list"

record damage_result =
  damage :: int
  effectiveness :: rat
  isCritical :: bool

section \<open>pokemon-battle.ts: type chart and stat formulas\<close>

definition TYPE_EFFECTIVENESS :: "(string \<times> (string \<times> rat) list) list" where
  "TYPE_EFFECTIVENESS =
   [(''normal'', [(''rock'', 1/2), (''ghost'', 0), (''steel'', 1/2)]),
    (''fire'', [(''fire'', 1/2), (''water'', 1/2), (''grass'', 2), (''ice'', 2), (''bug'', 2),
                (''rock'', 1/2), (''dragon'', 1/2), (''steel'', 2)]),
    (''water'', [(''fire'', 2), (''water'', 1/2), (''grass'', 1/2), (''ground'', 2), (''rock'', 2),
                 (''dragon'', 1/2)]),
    (''electric'', [(''water'', 2), (''electric'', 1/2), (''grass'', 1/2), (''ground'', 0),
                    (''flying'', 2), (''dragon'', 1/2)]),
    (''grass'', [(''fire'', 1/2), (''water'', 2), (''grass'', 1/2), (''poison'', 1/2),
                 (''ground'', 2), (''flying'', 1/2), (''bug'', 1/2), (''rock'', 2),
                 (''dragon'', 1/2), (''steel'', 1/2)]),
    (''ice'', [(''fire'', 1/2), (''water'', 1/2), (''grass'', 2), (''ice'', 1/2), (''ground'', 2),
               (''flying'', 2), (''dragon'', 2), (''steel'', 1/2)]),
    (''fighting'', [(''normal'', 2), (''ice'', 2), (''poison'', 1/2), (''flying'', 1/2),
                    (''psychic'', 1/2), (''bug'', 1/2), (''rock'', 2), (''ghost'', 0),
                    (''dark'', 2), (''steel'', 2), (''fairy'', 1/2)]),
    (''poison'', [(''grass'', 2), (''poison'', 1/2), (''ground'', 1/2), (''rock'', 1/2),
                  (''ghost'', 1/2), (''steel'', 0), (''fairy'', 2)]),
    (''ground'', [(''fire'', 2), (''electric'', 2), (''grass'', 1/2), (''poison'', 2),
                  (''flying'', 0), (''bug'', 1/2), (''rock'', 2), (''steel'', 2)]),
    (''flying'', [(''electric'', 1/2), (''grass'', 2), (''fighting'', 2), (''bug'', 2),
                  (''rock'', 1/2), (''steel'', 1/2)]),
    (''psychic'', [(''fighting'', 2), (''poison'', 2), (''psychic'', 1/2), (''dark'', 0),
                   (''steel'', 1/2)]),
    (''bug'', [(''fire'', 1/2), (''grass'', 2), (''fighting'', 1/2), (''poison'', 1/2),
               (''flying'', 1/2), (''psychic'', 2), (''ghost'', 1/2), (''dark'', 2),
               (''steel'', 1/2), (''fairy'', 1/2)]),
    (''rock'', [(''fire'', 2), (''ice'', 2), (''fighting'', 1/2), (''ground'', 1/2),
                (''flying'', 2), (''bug'', 2), (''steel'', 1/2)]),
    (''ghost'', [(''normal'', 0), (''psychic'', 2), (''ghost'', 2), (''dark'', 1/2)]),
    (''dragon'', [(''dragon'', 2), (''steel'', 1/2), (''fairy'', 0)]),
    (''dark'', [(''fighting'', 1/2), (''psychic'', 2), (''ghost'', 2), (''dark'', 1/2),
                (''fairy'', 1/2)]),
    (''steel'', [(''fire'', 1/2), (''water'', 1/2), (''electric'', 1/2), (''ice'', 2),
                 (''rock'', 2), (''steel'', 1/2), (''fairy'', 2)]),
    (''fairy'', [(''fighting'', 2), (''poison'', 1/2), (''bug'', 1/2), (''dragon'', 2),
                 (''dark'', 2), (''steel'', 1/2)])]"

text \<open>
  \<open>TYPE_EFFECTIVENESS[moveType][defenderType]\<close>: the entry of the chart, \<open>None\<close> where
  the row or the column is absent (\<open>undefined\<close> in the source).
\<close>

definition chart_entry :: "string \<Rightarrow> string \<Rightarrow> rat option" where
  "chart_entry moveType defenderType =
     (case map_of TYPE_EFFECTIVENESS moveType of
        None \<Rightarrow> None
      | Some row \<Rightarrow> map_of row defenderType)"

text \<open>
  \<open>calculateStat\<close> and \<open>calculateHP\<close>, with the source's default arguments
  \<open>iv = 31\<close>, \<open>ev = 0\<close>, \<open>nature = 1\<close> written at the call sites. The quotient by
  \<open>100\<close> is a correctly rounded quotient of two integers, whose floor is the floor of the
  exact quotient; with \<open>nature = 1\<close> the outer product is exact.
\<close>

definition calculateStat :: "int \<Rightarrow> int \<Rightarrow> int \<Rightarrow> int \<Rightarrow> rat \<Rightarrow> int" where
  "calculateStat baseStat lvl iv ev nature =
     \<lfloor>(of_int ((2 * baseStat + iv + ev div 4) * lvl) / 100 + 5) * nature\<rfloor>"

definition calculateHP :: "int \<Rightarrow> int \<Rightarrow> int \<Rightarrow> int \<Rightarrow> int" where
  "calculateHP baseHP lvl iv ev =
     \<lfloor>(of_int ((2 * baseHP + iv + ev div 4) * lvl) :: rat) / 100\<rfloor> + lvl + 10"

section \<open>pokemon-battle.ts: calculateDamage\<close>

text \<open>
  The stages of \<open>calculateDamage\<close>, in the order of the source. \<open>base_damage\<close> is the
  value of \<open>damage\<close> after the line "Base damage calculation". The quotient by the
  defending stat is a number when that stat is not zero; the stats that
  \<open>fetchPokemonForBattle\<close> computes are at least \<open>5\<close> (lemma \<open>fetched_stats_positive\<close>
  below).
\<close>

definition base_damage :: "(rat \<Rightarrow> rat) \<Rightarrow> pokemon \<Rightarrow> pokemon \<Rightarrow> move \<Rightarrow> int" where
  "base_damage fl attacker defender mv =
     (let lvl = (if level attacker = 0 then 50 else level attacker);
          pw = (case power mv of None \<Rightarrow> 0 | Some p \<Rightarrow> p);
          isPhysical = (damage_class mv = Some ''physical'');
          attackStat = (if isPhysical then attack (stats attacker)
                        else special_attack (stats attacker));
          defenseStat = (if isPhysical then defense (stats defender)
                         else special_defense (stats defender));
          a = fl (of_int (2 * lvl) / 5);
          b = fl (a + 2);
          c = fl (b * of_nat pw);
          d = fl (c * of_int attackStat);
          e = fl (d / of_int defenseStat)
      in \<lfloor>fl (e / 50)\<rfloor> + 2)"

text \<open>\<open>attacker.types.some(type => type.type.name === move.type.name) ? 1.5 : 1\<close>\<close>

definition stab :: "pokemon \<Rightarrow> move \<Rightarrow> rat" where
  "stab attacker mv = (if list_ex (\<lambda>t. t = mv_type mv) (types attacker) then 3/2 else 1)"

definition damage_after_stab :: "(rat \<Rightarrow> rat) \<Rightarrow> pokemon \<Rightarrow> pokemon \<Rightarrow> move \<Rightarrow> int" where
  "damage_after_stab fl attacker defender mv =
     \<lfloor>of_int (base_damage fl attacker defender mv) * stab attacker mv\<rfloor>"

text \<open>
  The \<open>forEach\<close> over the defender's types. The guard
  \<open>TYPE_EFFECTIVENESS[moveType] && TYPE_EFFECTIVENESS[moveType][defenderType.type.name]\<close>
  is a truthiness test: it fails on an absent row, an absent entry, and on the number
  \<open>0\<close>.
\<close>

definition effectiveness_step :: "string \<Rightarrow> string \<Rightarrow> rat \<Rightarrow> rat" where
  "effectiveness_step moveType defenderType eff =
     (case chart_entry moveType defenderType of
        None \<Rightarrow> eff
      | Some v \<Rightarrow> if v = 0 then eff else eff * v)"

definition type_effectiveness :: "move \<Rightarrow> pokemon \<Rightarrow> rat" where
  "type_effectiveness mv defender = fold (effectiveness_step (mv_type mv)) (types defender) 1"

definition damage_after_effectiveness ::
  "(rat \<Rightarrow> rat) \<Rightarrow> pokemon \<Rightarrow> pokemon \<Rightarrow> move \<Rightarrow> int" where
  "damage_after_effectiveness fl attacker defender mv =
     \<lfloor>of_int (damage_after_stab fl attacker defender mv) * type_effectiveness mv defender\<rfloor>"

text \<open>
  The random factor \<open>(85 + Math.floor(Math.random() * 16)) / 100\<close> and the critical hit
  \<open>Math.random() < 0.0625\<close>, on the two draws \<open>r1\<close> and \<open>r2\<close>.
\<close>

definition damage_after_random :: "(rat \<Rightarrow> rat) \<Rightarrow> rat \<Rightarrow> int \<Rightarrow> int" where
  "damage_after_random fl r1 dmg =
     (let randomFactor = fl (of_int (85 + \<lfloor>r1 * 16\<rfloor>) / 100)
      in \<lfloor>fl (of_int dmg * randomFactor)\<rfloor>)"

definition damage_after_critical :: "bool \<Rightarrow> int \<Rightarrow> int" where
  "damage_after_critical crit dmg = (if crit then \<lfloor>of_int dmg * (3/2 :: rat)\<rfloor> else dmg)"

definition calculateDamage ::
  "(rat \<Rightarrow> rat) \<Rightarrow> rng \<Rightarrow> pokemon \<Rightarrow> pokemon \<Rightarrow> move \<Rightarrow> damage_result \<times> rng" where
  "calculateDamage fl g attacker defender mv =
     (if (case power mv of None \<Rightarrow> 0 | Some p \<Rightarrow> p) = 0
      then (\<lparr>damage = 0, effectiveness = 1, isCritical = False\<rparr>, g)
      else
        (case random g of (r1, g1) \<Rightarrow>
        (case random g1 of (r2, g2) \<Rightarrow>
           (\<lparr>damage = damage_after_critical (r2 < 1/16)
                        (damage_after_random fl r1
                          (damage_after_effectiveness fl attacker defender mv)),
             effectiveness = type_effectiveness mv defender,
             isCritical = (r2 < 1/16)\<rparr>, g2))))"

section \<open>pokemon-battle.ts: simulateTurn\<close>

text \<open>
  The entries \<open>simulateTurn\<close> pushes to \<open>events\<close>: an attack, or the message that a
  combatant fainted.
\<close>

datatype event = is_Attack:
  Attack (ev_attacker: string) (ev_defender: string) (ev_move: string) (ev_damage: int)
         (ev_effectiveness: string) (ev_critical: string) (remaining_hp: int) (fainted: bool)
| Message string

definition effectiveness_text :: "rat \<Rightarrow> string" where
  "effectiveness_text e =
     (if e = 2 then ''It's super effective!''
      else if e = 1/2 then ''It's not very effective...''
      else if e = 0 then ''It has no effect...''
      else [])"

definition critical_text :: "bool \<Rightarrow> string" where
  "critical_text c = (if c then ''Critical hit!'' else [])"

text \<open>
  One attack: \<open>calculateDamage\<close>, the update of the target's \<open>current_hp\<close>, and the event
  pushed. It returns the target as updated, the event and the remaining draws. The move
  is \<open>undefined\<close> (\<open>None\<close>) when the move list had no element at the index chosen; the
  read of \<open>move.power\<close> then throws.
\<close>

definition attack_step ::
  "(rat \<Rightarrow> rat) \<Rightarrow> rng \<Rightarrow> pokemon \<Rightarrow> pokemon \<Rightarrow> move option
     \<Rightarrow> js_error + (pokemon \<times> event \<times> rng)" where
  "attack_step fl g actor target mvo =
     (case mvo of
        None \<Rightarrow> Inl TypeError
      | Some mv \<Rightarrow>
         (case calculateDamage fl g actor target mv of (result, g') \<Rightarrow>
            let target' = target\<lparr>current_hp := max 0 (current_hp target - damage result)\<rparr>
            in Inr (target',
                    Attack (name actor) (name target) (mv_name mv) (damage result)
                           (effectiveness_text (effectiveness result))
                           (critical_text (isCritical result))
                           (current_hp target') (current_hp target' \<le> 0),
                    g')))"

definition fainted_message :: "pokemon \<Rightarrow> event" where
  "fainted_message p = Message (name p @ '' fainted!'')"

text \<open>
  The second half of \<open>simulateTurn\<close> ("Second Pokemon's turn"), entered with the events
  pushed so far.
\<close>

definition second_turn ::
  "(rat \<Rightarrow> rat) \<Rightarrow> rng \<Rightarrow> pokemon \<Rightarrow> pokemon \<Rightarrow> move option \<Rightarrow> event list
     \<Rightarrow> js_error + (pokemon \<times> pokemon \<times> event list \<times> rng)" where
  "second_turn fl g first second secondMove events =
     (if current_hp second > 0 then
        (case attack_step fl g second first secondMove of
           Inl e \<Rightarrow> Inl e
         | Inr (first', ev, g') \<Rightarrow>
             Inr (first', second,
                  events @ [ev] @ (if current_hp first' \<le> 0 then [fainted_message first'] else []),
                  g'))
      else Inr (first, second, events, g))"

text \<open>
  "First Pokemon's turn", then the second half. The result is the pair
  \<open>(first, second)\<close> as the turn leaves them.
\<close>

definition first_turn ::
  "(rat \<Rightarrow> rat) \<Rightarrow> rng \<Rightarrow> pokemon \<Rightarrow> pokemon \<Rightarrow> move option \<Rightarrow> move option
     \<Rightarrow> js_error + (pokemon \<times> pokemon \<times> event list \<times> rng)" where
  "first_turn fl g first second firstMove secondMove =
     (if current_hp first > 0 then
        (case attack_step fl g first second firstMove of
           Inl e \<Rightarrow> Inl e
         | Inr (second', ev, g') \<Rightarrow>
             if current_hp second' \<le> 0
             then Inr (first, second', [ev, fainted_message second'], g')
             else second_turn fl g' first second' secondMove [ev])
      else second_turn fl g first second secondMove [])"

text \<open>
  \<open>simulateTurn\<close> mutates the two objects it is given; the model returns them as
  \<open>(attacker, defender)\<close> in the order of the parameters, with the events and the
  remaining draws.
\<close>

definition simulateTurn ::
  "(rat \<Rightarrow> rat) \<Rightarrow> rng \<Rightarrow> pokemon \<Rightarrow> pokemon \<Rightarrow> move option \<Rightarrow> move option
     \<Rightarrow> js_error + (pokemon \<times> pokemon \<times> event list \<times> rng)" where
  "simulateTurn fl g attacker defender attackerMove defenderMove =
     (let attackerFirst = (speed (stats attacker) \<ge> speed (stats defender)) in
      if attackerFirst
      then first_turn fl g attacker defender attackerMove defenderMove
      else (case first_turn fl g defender attacker defenderMove attackerMove of
              Inl e \<Rightarrow> Inl e
            | Inr (first', second', events, g') \<Rightarrow> Inr (second', first', events, g')))"

section \<open>pokemon-battle.ts: fetchPokemonForBattle\<close>

text \<open>
  The document the remote API serves for one Pokemon, reduced to what
  \<open>fetchPokemonForBattle\<close> reads: the name, the type names, the stat list (pairs of
  \<open>stat.name\<close> and \<open>base_stat\<close>) and the move documents behind the move URLs, in the
  order of the move list. The remote API is a parameter of the model: a function from
  the requested id or name to the document, \<open>None\<close> when the response is not ok.
\<close>

record api_pokemon =
  api_name :: string
  api_types :: "string list"
  api_stats :: "(string \<times> nat) list"
  api_moves :: "move list"

type_synonym api = "string \<Rightarrow> api_pokemon option"

text \<open>
  \<open>pokemonData.stats.find(s => s.stat.name === n).base_stat\<close>: the first entry of that
  name; the property read throws when there is none.
\<close>

definition base_stat :: "api_pokemon \<Rightarrow> string \<Rightarrow> js_error + int" where
  "base_stat d n = (case map_of (api_stats d) n of None \<Rightarrow> Inl TypeError | Some b \<Rightarrow> Inr (int b))"

definition fetchPokemonForBattle :: "api \<Rightarrow> string \<Rightarrow> js_error + pokemon" where
  "fetchPokemonForBattle remote pokemonId =
     (case remote pokemonId of
        None \<Rightarrow> Inl (Error (''Failed to fetch Pokemon data for '' @ pokemonId))
      | Some d \<Rightarrow>
         (case base_stat d ''hp'' of Inl e \<Rightarrow> Inl e | Inr bhp \<Rightarrow>
         (case base_stat d ''attack'' of Inl e \<Rightarrow> Inl e | Inr batk \<Rightarrow>
         (case base_stat d ''defense'' of Inl e \<Rightarrow> Inl e | Inr bdef \<Rightarrow>
         (case base_stat d ''special-attack'' of Inl e \<Rightarrow> Inl e | Inr bspa \<Rightarrow>
         (case base_stat d ''special-defense'' of Inl e \<Rightarrow> Inl e | Inr bspd \<Rightarrow>
         (case base_stat d ''speed'' of Inl e \<Rightarrow> Inl e | Inr bspe \<Rightarrow>
            Inr \<lparr>name = api_name d,
                 types = api_types d,
                 level = 50,
                 stats = \<lparr>hp = calculateHP bhp 50 31 0,
                           attack = calculateStat batk 50 31 0 1,
                           defense = calculateStat bdef 50 31 0 1,
                           special_attack = calculateStat bspa 50 31 0 1,
                           special_defense = calculateStat bspd 50 31 0 1,
                           speed = calculateStat bspe 50 31 0 1\<rparr>,
                 current_hp = calculateHP bhp 50 31 0,
                 moves = take 4 (api_moves d)\<rparr>)))))))"

section \<open>pokemon-battle.ts: battle_pokemon\<close>

record battle_input =
  pokemon1 :: string
  pokemon2 :: string
  turns :: "rat option"

record combatant_info =
  ci_name :: string
  ci_level :: int
  ci_hp :: int
  ci_types :: "string list"

datatype log_entry =
  Battle_start combatant_info combatant_info
| Turn nat "event list"
| Battle_end (turns_simulated: nat) (end_winner: string) (pokemon1_hp: int) (pokemon2_hp: int)

record battle_result =
  winner :: string
  battle_log :: "log_entry list"

text \<open>What a tool's \<open>run\<close> returns, and how the call ends.\<close>

datatype 'a tool_result = Success 'a | Failure js_error

datatype 'a outcome = Returned 'a | Thrown js_error

text \<open>\<open>moves[Math.floor(Math.random() * moves.length)]\<close>; \<open>undefined\<close> out of range.\<close>

definition pick_move :: "(rat \<Rightarrow> rat) \<Rightarrow> rng \<Rightarrow> move list \<Rightarrow> move option \<times> rng" where
  "pick_move fl g ms =
     (case random g of (r, g') \<Rightarrow>
        (let i = \<lfloor>fl (r * of_nat (length ms))\<rfloor>
         in if 0 \<le> i \<and> i < int (length ms) then Some (ms ! nat i) else None,
         g'))"

text \<open>The body of the loop up to the return of \<open>simulateTurn\<close>.\<close>

definition battle_turn ::
  "(rat \<Rightarrow> rat) \<Rightarrow> rng \<Rightarrow> pokemon \<Rightarrow> pokemon
     \<Rightarrow> js_error + (pokemon \<times> pokemon \<times> event list \<times> rng)" where
  "battle_turn fl g p1 p2 =
     (case pick_move fl g (moves p1) of (pokemon1Move, g1) \<Rightarrow>
     (case pick_move fl g1 (moves p2) of (pokemon2Move, g2) \<Rightarrow>
        simulateTurn fl g2 p1 p2 pokemon1Move pokemon2Move))"

text \<open>
  The \<open>while\<close> loop, from the value of \<open>currentTurn\<close> and the state at its head to the
  state when it is left: by its condition, or by the \<open>break\<close> after a turn.
\<close>

function battle_loop ::
  "(rat \<Rightarrow> rat) \<Rightarrow> rat \<Rightarrow> nat \<Rightarrow> pokemon \<Rightarrow> pokemon \<Rightarrow> rng \<Rightarrow> log_entry list
     \<Rightarrow> js_error + (nat \<times> pokemon \<times> pokemon \<times> rng \<times> log_entry list)" where
  "battle_loop fl maxTurns currentTurn p1 p2 g battleLog =
     (if of_nat currentTurn \<le> maxTurns \<and> current_hp p1 > 0 \<and> current_hp p2 > 0 then
        (case battle_turn fl g p1 p2 of
           Inl e \<Rightarrow> Inl e
         | Inr (p1', p2', turnEvents, g') \<Rightarrow>
             if current_hp p1' \<le> 0 \<or> current_hp p2' \<le> 0
             then Inr (Suc currentTurn, p1', p2', g', battleLog @ [Turn currentTurn turnEvents])
             else battle_loop fl maxTurns (Suc currentTurn) p1' p2' g'
                    (battleLog @ [Turn currentTurn turnEvents]))
      else Inr (currentTurn, p1, p2, g, battleLog))"
  by pat_completeness auto
termination
proof (relation "measure (\<lambda>(fl, maxTurns, currentTurn, p1, p2, g, battleLog).
                            nat (\<lfloor>maxTurns\<rfloor> + 1) - currentTurn)")
  show "wf (measure (\<lambda>(fl :: rat \<Rightarrow> rat, maxTurns :: rat, currentTurn :: nat, p1 :: pokemon,
                       p2 :: pokemon, g :: rng, battleLog :: log_entry list).
                            nat (\<lfloor>maxTurns\<rfloor> + 1) - currentTurn))"
    by simp
next
  fix fl :: "rat \<Rightarrow> rat" and maxTurns :: rat and currentTurn :: nat
    and p1 p2 :: pokemon and g :: rng and battleLog :: "log_entry list"
    and x2 :: "pokemon \<times> pokemon \<times> event list \<times> rng" and x1 :: pokemon
    and x2a :: "pokemon \<times> event list \<times> rng" and x1a :: pokemon
    and x2b :: "event list \<times> rng" and x1b :: "event list" and x2c :: rng
  assume "of_nat currentTurn \<le> maxTurns \<and> 0 < current_hp p1 \<and> 0 < current_hp p2"
  then have "int currentTurn \<le> \<lfloor>maxTurns\<rfloor>"
    by (simp add: le_floor_iff)
  then show "((fl, maxTurns, Suc currentTurn, x1, x1a, x2c, battleLog @ [Turn currentTurn x1b]),
              (fl, maxTurns, currentTurn, p1, p2, g, battleLog))
             \<in> measure (\<lambda>(fl, maxTurns, currentTurn, p1, p2, g, battleLog).
                            nat (\<lfloor>maxTurns\<rfloor> + 1) - currentTurn)"
    by simp
qed

declare battle_loop.simps [simp del]

text \<open>The chain of comparisons under "Battle results".\<close>

definition winner_of :: "pokemon \<Rightarrow> pokemon \<Rightarrow> string" where
  "winner_of p1 p2 =
     (if current_hp p1 \<le> 0 \<and> current_hp p2 \<le> 0 then ''draw''
      else if current_hp p1 \<le> 0 then name p2
      else if current_hp p2 \<le> 0 then name p1
      else if current_hp p1 > current_hp p2 then name p1
      else if current_hp p2 > current_hp p1 then name p2
      else ''draw'')"

text \<open>
  \<open>input.turns || 10\<close>: an absent \<open>turns\<close> and the number \<open>0\<close> are falsy. \<open>turns\<close>
  is a number of the JSON arguments, so it is finite.
\<close>

definition maxTurns_of :: "battle_input \<Rightarrow> rat" where
  "maxTurns_of inp = (case turns inp of None \<Rightarrow> 10 | Some t \<Rightarrow> if t = 0 then 10 else t)"

definition combatant_info_of :: "pokemon \<Rightarrow> combatant_info" where
  "combatant_info_of p =
     \<lparr>ci_name = name p, ci_level = level p, ci_hp = current_hp p, ci_types = types p\<rparr>"

text \<open>
  The \<open>try\<close> block of \<open>run\<close>. The summary text, which \<open>generateBattleSummary\<close> derives
  from the finished log, is not part of the model.
\<close>

definition battle_body ::
  "api \<Rightarrow> (rat \<Rightarrow> rat) \<Rightarrow> rng \<Rightarrow> battle_input \<Rightarrow> js_error + battle_result" where
  "battle_body remote fl g inp =
     (case fetchPokemonForBattle remote (pokemon1 inp) of Inl e \<Rightarrow> Inl e | Inr p1 \<Rightarrow>
     (case fetchPokemonForBattle remote (pokemon2 inp) of Inl e \<Rightarrow> Inl e | Inr p2 \<Rightarrow>
     (case battle_loop fl (maxTurns_of inp) 1 p1 p2 g
             [Battle_start (combatant_info_of p1) (combatant_info_of p2)] of
        Inl e \<Rightarrow> Inl e
      | Inr (currentTurn, p1', p2', g', battleLog) \<Rightarrow>
          Inr \<lparr>winner = winner_of p1' p2',
               battle_log = battleLog @
                 [Battle_end (currentTurn - 1) (winner_of p1' p2')
                             (current_hp p1') (current_hp p2')]\<rparr>)))"

text \<open>\<open>run\<close>: the \<open>catch\<close> turns every throw of the block into a failure value.\<close>

definition battle_pokemon ::
  "api \<Rightarrow> (rat \<Rightarrow> rat) \<Rightarrow> rng \<Rightarrow> battle_input \<Rightarrow> battle_result tool_result outcome" where
  "battle_pokemon remote fl g inp =
     Returned (case battle_body remote fl g inp of Inl e \<Rightarrow> Failure e | Inr r \<Rightarrow> Success r)"

section \<open>tools.ts: the schedule tools\<close>






text \<open>
  The database connection is a parameter of the model. A statement is prepared from its
  text and run with its bound values; the engine answers with the rows, or throws (from
  \<open>prepare\<close> or from \<open>all\<close>). A row is a list of column names with their values.
  \<open>number_text\<close>, also a parameter, is the text of a number in a template string.
\<close>

datatype sql_value = Null | Number rat | Text string

type_synonym row = "(string \<times> sql_value) list"


text \<open>
  The shape shared by the tools: \<open>try { body } catch (error) { return {success: false,
  error: ...} }\<close>. The body either throws or reaches a \<open>return\<close>; for each tool the
  body is a definition of its own, and the tool is the body inside \<open>try\<close>.
\<close>

definition try_catch :: "js_error + 'a tool_result \<Rightarrow> 'a tool_result outcome" where
  "try_catch body = Returned (case body of Inl e \<Rightarrow> Failure e | Inr r \<Rightarrow> r)"




















section \<open>pokemon-tools.ts: the values of the remote API\<close>

text \<open>
  What \<open>response.json()\<close> yields and what a property read yields: a JSON value or
  \<open>undefined\<close>. An object is the list of its own properties, each name once, in the
  order of their insertion.
\<close>

datatype js_value =
    JUndefined
  | JNull
  | JBool bool
  | JNumber rat
  | JString string
  | JArray "js_value list"
  | JObject "(string \<times> js_value) list"








section \<open>pokemon-tools.ts: the helpers\<close>

text \<open>
  \<open>fetch\<close> is a parameter of the model: for a URL it throws or answers with a response,
  whose \<open>json()\<close> throws or yields a value.
\<close>

record response =
  ok :: bool
  status :: rat
  json :: "js_error + js_value"

type_synonym fetch = "string \<Rightarrow> js_error + response"








section \<open>pokemon-tools.ts: the tools of the remote API\<close>
















section \<open>pokemon-tools.ts: the tools of the collection\<close>






























section \<open>build-schedule/index.ts: the feed\<close>

text \<open>
  The schedule feed. \<open>insertScheduleData\<close> takes \<open>data: any\<close>, so every field that it
  reads may be absent (\<open>None\<close>); for the keys (\<open>id\<close>, \<open>code\<close>, the entries of a talk's
  \<open>speakers\<close>) \<open>None\<close> also stands for \<open>null\<close>, which is bound to a statement as
  \<open>NULL\<close> like an absent value. A field that is present holds a value of the type that
  \<open>types.ts\<close> declares: a name, title or description is a string or a
  \<open>LocalizedString\<close>, an object whose one field \<open>en\<close> is a string.
\<close>

datatype loc_text = Plain string | Localized string

record feed_room =
  room_id :: "int option"
  room_name :: "loc_text option"
  room_description :: "loc_text option"

record feed_track =
  track_id :: "int option"
  track_name :: "loc_text option"
  track_description :: "loc_text option"
  track_color :: "string option"

record feed_speaker =
  speaker_code :: "string option"
  speaker_name :: "string option"
  speaker_avatar :: "string option"
  speaker_avatar_thumbnail_default :: "string option"
  speaker_avatar_thumbnail_tiny :: "string option"

record feed_talk =
  talk_id :: "int option"
  talk_code :: "string option"
  talk_title :: "loc_text option"
  talk_abstract :: "string option"
  talk_start :: "string option"
  talk_end :: "string option"
  talk_room :: "int option"
  talk_track :: "int option"
  talk_duration :: "int option"
  talk_updated :: "string option"
  talk_state :: "string option"
  talk_do_not_record :: "bool option"
  talk_speaker_codes :: "string option list option"

record schedule_data =
  data_rooms :: "feed_room list option"
  data_tracks :: "feed_track list option"
  data_speakers :: "feed_speaker list option"
  data_talks :: "feed_talk list option"

section \<open>build-schedule/index.ts: the tables\<close>

text \<open>
  One record per table of the \<open>CREATE TABLE\<close> statements. A table is the list of its
  rows in the order of their insertion. In \<open>talks\<close>, \<open>rooms\<close> and \<open>tracks\<close> the column
  \<open>id\<close> is \<open>INTEGER PRIMARY KEY\<close>, the row id, and never \<open>NULL\<close>. The primary keys
  of \<open>speakers\<close> (\<open>code TEXT\<close>) and of \<open>talk_speakers\<close> (\<open>talk_id\<close>,
  \<open>speaker_code\<close>) are ordinary columns that may hold \<open>NULL\<close>; their hidden row ids
  are not part of a row. The columns declared \<open>NOT NULL\<close> hold plain values.
\<close>

record talk_row =
  t_id :: int
  t_code :: "string option"
  t_title :: string
  t_abstract :: "string option"
  t_start :: string
  t_end :: string
  t_room :: int
  t_track :: "int option"
  t_duration :: "int option"
  t_updated :: "string option"
  t_state :: "string option"
  t_do_not_record :: int

record speaker_row =
  s_code :: "string option"
  s_name :: string
  s_avatar :: string
  s_avatar_thumbnail_default :: string
  s_avatar_thumbnail_tiny :: string

record room_row =
  r_id :: int
  r_name :: string
  r_description :: "string option"

record track_row =
  k_id :: int
  k_name :: string
  k_description :: "string option"
  k_color :: "string option"

record schedule_db =
  talks :: "talk_row list"
  speakers :: "speaker_row list"
  rooms :: "room_row list"
  tracks :: "track_row list"
  talk_speakers :: "(int option \<times> string option) list"

section \<open>build-schedule/index.ts: the prepared statements\<close>

text \<open>
  The values bound to a statement by \<open>run({$id: ..., ...})\<close>; \<open>None\<close> is \<open>NULL\<close>.
\<close>

record room_values =
  rv_id :: "int option"
  rv_name :: "string option"
  rv_description :: "string option"

record track_values =
  kv_id :: "int option"
  kv_name :: "string option"
  kv_description :: "string option"
  kv_color :: "string option"

record speaker_values =
  sv_code :: "string option"
  sv_name :: "string option"
  sv_avatar :: string
  sv_avatar_thumbnail_default :: string
  sv_avatar_thumbnail_tiny :: string

record talk_values =
  tv_id :: "int option"
  tv_code :: "string option"
  tv_title :: "string option"
  tv_abstract :: "string option"
  tv_start :: "string option"
  tv_end :: "string option"
  tv_room :: "int option"
  tv_track :: "int option"
  tv_duration :: "int option"
  tv_updated :: "string option"
  tv_state :: "string option"
  tv_do_not_record :: int

text \<open>
  \<open>INSERT OR REPLACE\<close>: the rows in conflict with the new row on the primary key or on
  a \<open>UNIQUE\<close> column are deleted, and the new row is inserted. Two \<open>NULL\<close>s are never
  in conflict.
\<close>

definition replace_into :: "('a \<Rightarrow> 'a \<Rightarrow> bool) \<Rightarrow> 'a \<Rightarrow> 'a list \<Rightarrow> 'a list" where
  "replace_into conflict x tbl = filter (\<lambda>r. \<not> conflict x r) tbl @ [x]"

definition room_conflict :: "room_row \<Rightarrow> room_row \<Rightarrow> bool" where
  "room_conflict x r = (r_id r = r_id x)"

definition track_conflict :: "track_row \<Rightarrow> track_row \<Rightarrow> bool" where
  "track_conflict x r = (k_id r = k_id x)"

definition speaker_conflict :: "speaker_row \<Rightarrow> speaker_row \<Rightarrow> bool" where
  "speaker_conflict x r = (s_code x \<noteq> None \<and> s_code r = s_code x)"

text \<open>\<open>talks\<close> has the primary key \<open>id\<close> and the \<open>UNIQUE\<close> column \<open>code\<close>.\<close>

definition talk_conflict :: "talk_row \<Rightarrow> talk_row \<Rightarrow> bool" where
  "talk_conflict x r = (t_id r = t_id x \<or> (t_code x \<noteq> None \<and> t_code r = t_code x))"

text \<open>
  A \<open>NULL\<close> bound to an \<open>INTEGER PRIMARY KEY\<close> column is replaced by a fresh row id, one
  more than the largest in the table (\<open>1\<close> in an empty table).
\<close>

definition next_rowid :: "int list \<Rightarrow> int" where
  "next_rowid ids = (if ids = [] then 1 else Max (set ids) + 1)"

definition rowid_for :: "int option \<Rightarrow> int list \<Rightarrow> int" where
  "rowid_for v ids = (case v of Some i \<Rightarrow> i | None \<Rightarrow> next_rowid ids)"

text \<open>
  The statements run with \<open>PRAGMA foreign_keys = ON\<close>. A statement that binds \<open>NULL\<close>
  to a \<open>NOT NULL\<close> column, or leaves a foreign key without its parent row, throws and
  changes nothing. Replacing a room, a track or a speaker puts back a row of the same
  key, so these statements break no foreign key.
\<close>

definition not_null_error :: "string \<Rightarrow> js_error" where
  "not_null_error column = Error (''NOT NULL constraint failed: '' @ column)"

definition foreign_key_error :: js_error where
  "foreign_key_error = Error ''FOREIGN KEY constraint failed''"

definition insertRoom :: "room_values \<Rightarrow> schedule_db \<Rightarrow> js_error + schedule_db" where
  "insertRoom v db =
     (case rv_name v of
        None \<Rightarrow> Inl (not_null_error ''rooms.name'')
      | Some n \<Rightarrow>
          Inr (db\<lparr>rooms := replace_into room_conflict
                 \<lparr>r_id = rowid_for (rv_id v) (map r_id (rooms db)), r_name = n,
                  r_description = rv_description v\<rparr>
                 (rooms db)\<rparr>))"

definition insertTrack :: "track_values \<Rightarrow> schedule_db \<Rightarrow> js_error + schedule_db" where
  "insertTrack v db =
     (case kv_name v of
        None \<Rightarrow> Inl (not_null_error ''tracks.name'')
      | Some n \<Rightarrow>
          Inr (db\<lparr>tracks := replace_into track_conflict
                 \<lparr>k_id = rowid_for (kv_id v) (map k_id (tracks db)), k_name = n,
                  k_description = kv_description v, k_color = kv_color v\<rparr>
                 (tracks db)\<rparr>))"

definition insertSpeaker :: "speaker_values \<Rightarrow> schedule_db \<Rightarrow> js_error + schedule_db" where
  "insertSpeaker v db =
     (case sv_name v of
        None \<Rightarrow> Inl (not_null_error ''speakers.name'')
      | Some n \<Rightarrow>
          Inr (db\<lparr>speakers := replace_into speaker_conflict
                 \<lparr>s_code = sv_code v, s_name = n, s_avatar = sv_avatar v,
                  s_avatar_thumbnail_default = sv_avatar_thumbnail_default v,
                  s_avatar_thumbnail_tiny = sv_avatar_thumbnail_tiny v\<rparr>
                 (speakers db)\<rparr>))"

text \<open>
  \<open>insertTalk\<close>: \<open>title\<close>, \<open>start\<close>, \<open>end\<close> and \<open>room\<close> are \<open>NOT NULL\<close>; the room of
  the new row must exist, its track must exist unless it is \<open>NULL\<close>, and no row of
  \<open>talk_speakers\<close> may be left pointing to a talk that the statement deleted and did not
  put back.
\<close>

definition talk_row_for :: "int \<Rightarrow> string \<Rightarrow> string \<Rightarrow> string \<Rightarrow> int \<Rightarrow> talk_values \<Rightarrow> talk_row" where
  "talk_row_for i title start end room v =
     \<lparr>t_id = i, t_code = tv_code v, t_title = title, t_abstract = tv_abstract v,
      t_start = start, t_end = end, t_room = room, t_track = tv_track v,
      t_duration = tv_duration v, t_updated = tv_updated v, t_state = tv_state v,
      t_do_not_record = tv_do_not_record v\<rparr>"

definition talk_foreign_keys_hold :: "talk_row \<Rightarrow> schedule_db \<Rightarrow> bool" where
  "talk_foreign_keys_hold x db =
     (t_room x \<in> r_id ` set (rooms db)
      \<and> (case t_track x of None \<Rightarrow> True | Some k \<Rightarrow> k \<in> k_id ` set (tracks db))
      \<and> filter (\<lambda>ts. fst ts \<in> (\<lambda>r. Some (t_id r)) ` set (filter (talk_conflict x) (talks db))
                     \<and> fst ts \<noteq> Some (t_id x))
           (talk_speakers db) = [])"

definition insertTalk :: "talk_values \<Rightarrow> schedule_db \<Rightarrow> js_error + schedule_db" where
  "insertTalk v db =
     (case tv_title v of None \<Rightarrow> Inl (not_null_error ''talks.title'') | Some title \<Rightarrow>
     (case tv_start v of None \<Rightarrow> Inl (not_null_error ''talks.start'') | Some start \<Rightarrow>
     (case tv_end v of None \<Rightarrow> Inl (not_null_error ''talks.end'') | Some end \<Rightarrow>
     (case tv_room v of None \<Rightarrow> Inl (not_null_error ''talks.room'') | Some room \<Rightarrow>
        (if talk_foreign_keys_hold
              (talk_row_for (rowid_for (tv_id v) (map t_id (talks db))) title start end room v) db
         then Inr (db\<lparr>talks := replace_into talk_conflict
                     (talk_row_for (rowid_for (tv_id v) (map t_id (talks db)))
                        title start end room v)
                     (talks db)\<rparr>)
         else Inl foreign_key_error)))))"

text \<open>
  \<open>insertTalkSpeaker\<close> is \<open>INSERT OR IGNORE\<close>: a pair already in the table is skipped
  (a pair with a \<open>NULL\<close> is in conflict with no row); a new pair must point to an existing
  talk and an existing speaker wherever it is not \<open>NULL\<close>.
\<close>

definition insertTalkSpeaker ::
  "int option \<times> string option \<Rightarrow> schedule_db \<Rightarrow> js_error + schedule_db" where
  "insertTalkSpeaker x db =
     (if fst x \<noteq> None \<and> snd x \<noteq> None \<and> x \<in> set (talk_speakers db) then Inr db
      else if (case fst x of None \<Rightarrow> True | Some i \<Rightarrow> i \<in> t_id ` set (talks db))
              \<and> (case snd x of None \<Rightarrow> True | Some c \<Rightarrow> Some c \<in> s_code ` set (speakers db))
           then Inr (db\<lparr>talk_speakers := talk_speakers db @ [x]\<rparr>)
           else Inl foreign_key_error)"

section \<open>build-schedule/index.ts: insertScheduleData\<close>

text \<open>
  The values bound to the statements. \<open>x || null\<close> and \<open>x || ''\<close> replace an absent
  value, the empty string and the number \<open>0\<close>. A \<open>LocalizedString\<close> gives its \<open>en\<close>
  field, or its JSON text when that field is empty; an absent name or title stays absent
  (\<open>JSON.stringify(undefined)\<close> is \<open>undefined\<close>).
\<close>

definition or_null :: "string option \<Rightarrow> string option" where
  "or_null v = (case v of None \<Rightarrow> None | Some s \<Rightarrow> if s = [] then None else Some s)"

definition or_null_int :: "int option \<Rightarrow> int option" where
  "or_null_int v = (case v of None \<Rightarrow> None | Some n \<Rightarrow> if n = 0 then None else Some n)"

definition or_empty :: "string option \<Rightarrow> string" where
  "or_empty v = (case v of None \<Rightarrow> [] | Some s \<Rightarrow> s)"

definition localized :: "loc_text \<Rightarrow> string" where
  "localized v =
     (case v of
        Plain s \<Rightarrow> s
      | Localized en \<Rightarrow>
          if en \<noteq> [] then en
          else ''{'' @ [CHR 0x22] @ ''en'' @ [CHR 0x22] @ '':'' @ [CHR 0x22, CHR 0x22] @ ''}'')"

definition localized_name :: "loc_text option \<Rightarrow> string option" where
  "localized_name v = (case v of None \<Rightarrow> None | Some t \<Rightarrow> Some (localized t))"

definition localized_or_null :: "loc_text option \<Rightarrow> string option" where
  "localized_or_null v =
     (case v of
        None \<Rightarrow> None
      | Some (Plain s) \<Rightarrow> if s = [] then None else Some s
      | Some (Localized en) \<Rightarrow> Some (localized (Localized en)))"

definition room_values_of :: "feed_room \<Rightarrow> room_values" where
  "room_values_of room =
     \<lparr>rv_id = room_id room, rv_name = localized_name (room_name room),
      rv_description = localized_or_null (room_description room)\<rparr>"

definition track_values_of :: "feed_track \<Rightarrow> track_values" where
  "track_values_of track =
     \<lparr>kv_id = track_id track, kv_name = localized_name (track_name track),
      kv_description = localized_or_null (track_description track),
      kv_color = or_null (track_color track)\<rparr>"

definition speaker_values_of :: "feed_speaker \<Rightarrow> speaker_values" where
  "speaker_values_of speaker =
     \<lparr>sv_code = speaker_code speaker, sv_name = speaker_name speaker,
      sv_avatar = or_empty (speaker_avatar speaker),
      sv_avatar_thumbnail_default = or_empty (speaker_avatar_thumbnail_default speaker),
      sv_avatar_thumbnail_tiny = or_empty (speaker_avatar_thumbnail_tiny speaker)\<rparr>"

definition talk_values_of :: "feed_talk \<Rightarrow> talk_values" where
  "talk_values_of talk =
     \<lparr>tv_id = talk_id talk, tv_code = or_null (talk_code talk),
      tv_title = localized_name (talk_title talk), tv_abstract = or_null (talk_abstract talk),
      tv_start = talk_start talk, tv_end = talk_end talk, tv_room = talk_room talk,
      tv_track = or_null_int (talk_track talk), tv_duration = or_null_int (talk_duration talk),
      tv_updated = or_null (talk_updated talk), tv_state = or_null (talk_state talk),
      tv_do_not_record = (if talk_do_not_record talk = Some True then 1 else 0)\<rparr>"

text \<open>A \<open>for\<close> loop over statements: the first throw ends it.\<close>

fun run_all :: "('a \<Rightarrow> schedule_db \<Rightarrow> js_error + schedule_db) \<Rightarrow> 'a list \<Rightarrow> schedule_db
                 \<Rightarrow> js_error + schedule_db" where
  "run_all stmt [] db = Inr db"
| "run_all stmt (x # xs) db =
     (case stmt x db of Inl e \<Rightarrow> Inl e | Inr db' \<Rightarrow> run_all stmt xs db')"

definition each :: "'a list option \<Rightarrow> 'a list" where
  "each v = (case v of None \<Rightarrow> [] | Some xs \<Rightarrow> xs)"

text \<open>The body of the loop over the talks: the talk, then its speaker associations.\<close>

definition insert_talk_and_speakers :: "feed_talk \<Rightarrow> schedule_db \<Rightarrow> js_error + schedule_db" where
  "insert_talk_and_speakers talk db =
     (case insertTalk (talk_values_of talk) db of
        Inl e \<Rightarrow> Inl e
      | Inr db' \<Rightarrow>
          run_all insertTalkSpeaker
            (map (\<lambda>speakerCode. (talk_id talk, speakerCode)) (each (talk_speaker_codes talk))) db')"

text \<open>The function given to \<open>db.transaction\<close>, up to the statistics it returns.\<close>

definition insertScheduleData_body :: "schedule_data \<Rightarrow> schedule_db \<Rightarrow> js_error + schedule_db" where
  "insertScheduleData_body d db =
     (case run_all insertRoom (map room_values_of (each (data_rooms d))) db of
        Inl e \<Rightarrow> Inl e
      | Inr db1 \<Rightarrow>
     (case run_all insertTrack (map track_values_of (each (data_tracks d))) db1 of
        Inl e \<Rightarrow> Inl e
      | Inr db2 \<Rightarrow>
     (case run_all insertSpeaker (map speaker_values_of (each (data_speakers d))) db2 of
        Inl e \<Rightarrow> Inl e
      | Inr db3 \<Rightarrow>
          run_all insert_talk_and_speakers (each (data_talks d)) db3)))"

record import_stats =
  stat_rooms :: nat
  stat_tracks :: nat
  stat_speakers :: nat
  stat_talks :: nat

text \<open>
  \<open>insertScheduleData\<close>: the transaction commits when the function returns, and rolls
  back to the tables as they were when it throws. The result is what the call returns or
  throws, with the tables it leaves.
\<close>

definition insertScheduleData ::
  "schedule_data \<Rightarrow> schedule_db \<Rightarrow> (js_error + import_stats) \<times> schedule_db" where
  "insertScheduleData d db =
     (case insertScheduleData_body d db of
        Inl e \<Rightarrow> (Inl e, db)
      | Inr db' \<Rightarrow>
          (Inr \<lparr>stat_rooms = length (each (data_rooms d)),
                stat_tracks = length (each (data_tracks d)),
                stat_speakers = length (each (data_speakers d)),
                stat_talks = length (each (data_talks d))\<rparr>, db'))"

text \<open>
  A feed whose entities all carry their keys: every room, track and talk has its \<open>id\<close>,
  every speaker its \<open>code\<close>, and no entry of a talk's \<open>speakers\<close> is \<open>null\<close>.
\<close>

definition keyed_talk :: "feed_talk \<Rightarrow> bool" where
  "keyed_talk talk =
     (talk_id talk \<noteq> None \<and> list_all (\<lambda>c. c \<noteq> None) (each (talk_speaker_codes talk)))"

definition keyed_feed :: "schedule_data \<Rightarrow> bool" where
  "keyed_feed d =
     (list_all (\<lambda>room. room_id room \<noteq> None) (each (data_rooms d))
      \<and> list_all (\<lambda>track. track_id track \<noteq> None) (each (data_tracks d))
      \<and> list_all (\<lambda>speaker. speaker_code speaker \<noteq> None) (each (data_speakers d))
      \<and> list_all keyed_talk (each (data_talks d)))"

text \<open>A small feed, with a talk given twice; a feed of one room without id; the empty tables.\<close>

definition example_feed :: schedule_data where
  "example_feed =
     \<lparr>data_rooms = Some [\<lparr>room_id = Some 1, room_name = Some (Localized ''Hall''),
                           room_description = None\<rparr>],
      data_tracks = Some [\<lparr>track_id = Some 7, track_name = Some (Plain ''PyData''),
                            track_description = Some (Localized ''Data''),
                            track_color = Some ''#000000''\<rparr>],
      data_speakers = Some [\<lparr>speaker_code = Some ''ABC'', speaker_name = Some ''Ada'',
                              speaker_avatar = None, speaker_avatar_thumbnail_default = None,
                              speaker_avatar_thumbnail_tiny = None\<rparr>],
      data_talks = Some
        [\<lparr>talk_id = Some 10, talk_code = Some ''T1'', talk_title = Some (Plain ''Opening''),
          talk_abstract = None, talk_start = Some ''2025-04-23T09:00:00+02:00'',
          talk_end = Some ''2025-04-23T09:30:00+02:00'', talk_room = Some 1,
          talk_track = Some 7, talk_duration = Some 30, talk_updated = None,
          talk_state = None, talk_do_not_record = None,
          talk_speaker_codes = Some [Some ''ABC'']\<rparr>,
         \<lparr>talk_id = Some 10, talk_code = Some ''T1'',
          talk_title = Some (Plain ''Opening (updated)''),
          talk_abstract = None, talk_start = Some ''2025-04-23T09:00:00+02:00'',
          talk_end = Some ''2025-04-23T09:30:00+02:00'', talk_room = Some 1,
          talk_track = Some 7, talk_duration = Some 30, talk_updated = None,
          talk_state = None, talk_do_not_record = Some True,
          talk_speaker_codes = Some [Some ''ABC'']\<rparr>]\<rparr>"

definition keyless_room_feed :: schedule_data where
  "keyless_room_feed =
     \<lparr>data_rooms = Some [\<lparr>room_id = None, room_name = Some (Plain ''Hall''),
                           room_description = None\<rparr>],
      data_tracks = None, data_speakers = None, data_talks = None\<rparr>"

definition empty_db :: schedule_db where
  "empty_db = \<lparr>talks = [], speakers = [], rooms = [], tracks = [], talk_speakers = []\<rparr>"

text \<open>
  The rows stored for the entities of a feed that carry their keys and their \<open>NOT NULL\<close>
  values (for such an entity the alternatives written for \<open>None\<close> are never taken), and
  the tables that a committed run of \<open>insertScheduleData\<close> on such a feed leaves, written
  out table by table.
\<close>

definition stored_room :: "feed_room \<Rightarrow> room_row" where
  "stored_room room =
     \<lparr>r_id = (case room_id room of Some i \<Rightarrow> i | None \<Rightarrow> 0),
      r_name = (case room_name room of Some t \<Rightarrow> localized t | None \<Rightarrow> []),
      r_description = localized_or_null (room_description room)\<rparr>"

definition stored_track :: "feed_track \<Rightarrow> track_row" where
  "stored_track track =
     \<lparr>k_id = (case track_id track of Some i \<Rightarrow> i | None \<Rightarrow> 0),
      k_name = (case track_name track of Some t \<Rightarrow> localized t | None \<Rightarrow> []),
      k_description = localized_or_null (track_description track),
      k_color = or_null (track_color track)\<rparr>"

definition stored_speaker :: "feed_speaker \<Rightarrow> speaker_row" where
  "stored_speaker speaker =
     \<lparr>s_code = speaker_code speaker,
      s_name = (case speaker_name speaker of Some n \<Rightarrow> n | None \<Rightarrow> []),
      s_avatar = or_empty (speaker_avatar speaker),
      s_avatar_thumbnail_default = or_empty (speaker_avatar_thumbnail_default speaker),
      s_avatar_thumbnail_tiny = or_empty (speaker_avatar_thumbnail_tiny speaker)\<rparr>"

definition stored_talk :: "feed_talk \<Rightarrow> talk_row" where
  "stored_talk talk =
     talk_row_for (case talk_id talk of Some i \<Rightarrow> i | None \<Rightarrow> 0)
       (case talk_title talk of Some t \<Rightarrow> localized t | None \<Rightarrow> [])
       (case talk_start talk of Some s \<Rightarrow> s | None \<Rightarrow> [])
       (case talk_end talk of Some s \<Rightarrow> s | None \<Rightarrow> [])
       (case talk_room talk of Some i \<Rightarrow> i | None \<Rightarrow> 0)
       (talk_values_of talk)"

definition ignore_into :: "'a \<Rightarrow> 'a list \<Rightarrow> 'a list" where
  "ignore_into x tbl = (if x \<in> set tbl then tbl else tbl @ [x])"

definition speaker_pairs :: "feed_talk \<Rightarrow> (int option \<times> string option) list" where
  "speaker_pairs talk =
     map (\<lambda>speakerCode. (talk_id talk, speakerCode)) (each (talk_speaker_codes talk))"

definition committed_tables :: "schedule_data \<Rightarrow> schedule_db \<Rightarrow> schedule_db" where
  "committed_tables d db =
     \<lparr>talks = fold (replace_into talk_conflict) (map stored_talk (each (data_talks d))) (talks db),
      speakers = fold (replace_into speaker_conflict)
                   (map stored_speaker (each (data_speakers d))) (speakers db),
      rooms = fold (replace_into room_conflict) (map stored_room (each (data_rooms d))) (rooms db),
      tracks = fold (replace_into track_conflict)
                 (map stored_track (each (data_tracks d))) (tracks db),
      talk_speakers = fold ignore_into (concat (map speaker_pairs (each (data_talks d))))
                        (talk_speakers db)\<rparr>"

definition example_tables :: schedule_db where
  "example_tables =
     \<lparr>talks =
        [\<lparr>t_id = 10, t_code = Some ''T1'', t_title = ''Opening (updated)'',
          t_abstract = None, t_start = ''2025-04-23T09:00:00+02:00'',
          t_end = ''2025-04-23T09:30:00+02:00'', t_room = 1,
          t_track = Some 7, t_duration = Some 30, t_updated = None,
          t_state = None, t_do_not_record = 1\<rparr>],
      speakers =
        [\<lparr>s_code = Some ''ABC'', s_name = ''Ada'', s_avatar = [],
          s_avatar_thumbnail_default = [], s_avatar_thumbnail_tiny = []\<rparr>],
      rooms = [\<lparr>r_id = 1, r_name = ''Hall'', r_description = None\<rparr>],
      tracks =
        [\<lparr>k_id = 7, k_name = ''PyData'', k_description = Some ''Data'',
          k_color = Some ''#000000''\<rparr>],
      talk_speakers = [(Some 10, Some ''ABC'')]\<rparr>"

definition example_stats :: import_stats where
  "example_stats = \<lparr>stat_rooms = 1, stat_tracks = 1, stat_speakers = 1, stat_talks = 2\<rparr>"

section \<open>Reading the battle log\<close>

text \<open>
  The attack events of a log, in the order in which the attacks were made. The field
  \<open>remaining_hp\<close> of an attack event is the target's \<open>current_hp\<close> right after the attack.
\<close>

fun turn_attacks :: "log_entry \<Rightarrow> event list" where
  "turn_attacks (Turn k evs) = filter is_Attack evs"
| "turn_attacks (Battle_start a b) = []"
| "turn_attacks (Battle_end n w h1 h2) = []"

definition attacks_of :: "log_entry list \<Rightarrow> event list" where
  "attacks_of entries = concat (map turn_attacks entries)"

text \<open>
  No attack follows an attack that left its target at zero: every attack event but the
  last one of the list has a positive \<open>remaining_hp\<close>.
\<close>

fun faint_ends_attacks :: "event list \<Rightarrow> bool" where
  "faint_ends_attacks [] = True"
| "faint_ends_attacks [e] = True"
| "faint_ends_attacks (e # e' # es) = (0 < remaining_hp e \<and> faint_ends_attacks (e' # es))"

fun is_Turn :: "log_entry \<Rightarrow> bool" where
  "is_Turn (Turn k evs) = True"
| "is_Turn (Battle_start a b) = False"
| "is_Turn (Battle_end n w h1 h2) = False"

section \<open>Example data\<close>

text \<open>
  Three documents of the remote API with their base stats, two move documents each, and
  a remote that serves them, with the objects \<open>fetchPokemonForBattle\<close> builds from
  them. The draws are all \<open>1/2\<close> (random factor \<open>0.93\<close>, no critical
  hit, the middle of the move list) and the rounding is the identity.
\<close>

definition tackle :: move where
  "tackle = \<lparr>mv_name = ''tackle'', power = Some 40, mv_type = ''normal'',
             damage_class = Some ''physical''\<rparr>"

definition tail_whip :: move where
  "tail_whip = \<lparr>mv_name = ''tail-whip'', power = None, mv_type = ''normal'',
                damage_class = Some ''status''\<rparr>"

definition psychic :: move where
  "psychic = \<lparr>mv_name = ''psychic'', power = Some 90, mv_type = ''psychic'',
              damage_class = Some ''special''\<rparr>"

definition lick :: move where
  "lick = \<lparr>mv_name = ''lick'', power = Some 30, mv_type = ''ghost'',
           damage_class = Some ''physical''\<rparr>"

definition rattata_doc :: api_pokemon where
  "rattata_doc = \<lparr>api_name = ''rattata'', api_types = [''normal''],
     api_stats = [(''hp'', 30), (''attack'', 56), (''defense'', 35), (''special-attack'', 25),
                  (''special-defense'', 35), (''speed'', 72)],
     api_moves = [tail_whip, tackle]\<rparr>"

definition mewtwo_doc :: api_pokemon where
  "mewtwo_doc = \<lparr>api_name = ''mewtwo'', api_types = [''psychic''],
     api_stats = [(''hp'', 106), (''attack'', 110), (''defense'', 90), (''special-attack'', 154),
                  (''special-defense'', 90), (''speed'', 130)],
     api_moves = [tackle, psychic]\<rparr>"

definition gastly_doc :: api_pokemon where
  "gastly_doc = \<lparr>api_name = ''gastly'', api_types = [''ghost'', ''poison''],
     api_stats = [(''hp'', 30), (''attack'', 35), (''defense'', 30), (''special-attack'', 100),
                  (''special-defense'', 35), (''speed'', 80)],
     api_moves = [tackle, lick]\<rparr>"

definition example_remote :: api where
  "example_remote i =
     (if i = ''rattata'' then Some rattata_doc
      else if i = ''mewtwo'' then Some mewtwo_doc
      else if i = ''gastly'' then Some gastly_doc
      else None)"

definition rattata :: pokemon where
  "rattata = \<lparr>name = ''rattata'', types = [''normal''], level = 50,
     stats = \<lparr>hp = 105, attack = 76, defense = 55, special_attack = 45,
               special_defense = 55, speed = 92\<rparr>,
     current_hp = 105, moves = [tail_whip, tackle]\<rparr>"

definition mewtwo :: pokemon where
  "mewtwo = \<lparr>name = ''mewtwo'', types = [''psychic''], level = 50,
     stats = \<lparr>hp = 181, attack = 130, defense = 110, special_attack = 174,
               special_defense = 110, speed = 150\<rparr>,
     current_hp = 181, moves = [tackle, psychic]\<rparr>"

definition gastly :: pokemon where
  "gastly = \<lparr>name = ''gastly'', types = [''ghost'', ''poison''], level = 50,
     stats = \<lparr>hp = 105, attack = 55, defense = 50, special_attack = 120,
               special_defense = 55, speed = 100\<rparr>,
     current_hp = 105, moves = [tackle, lick]\<rparr>"

definition half_draws :: rng where
  "half_draws n = 1/2"

definition exact :: "rat \<Rightarrow> rat" where
  "exact x = x"

definition mewtwo_vs_rattata :: battle_input where
  "mewtwo_vs_rattata = \<lparr>pokemon1 = ''mewtwo'', pokemon2 = ''rattata'', turns = None\<rparr>"

definition mewtwo_vs_rattata_result :: battle_result where
  "mewtwo_vs_rattata_result =
     \<lparr>winner = ''mewtwo'',
      battle_log =
        [Battle_start
           \<lparr>ci_name = ''mewtwo'', ci_level = 50, ci_hp = 181, ci_types = [''psychic'']\<rparr>
           \<lparr>ci_name = ''rattata'', ci_level = 50, ci_hp = 105, ci_types = [''normal'']\<rparr>,
         Turn 1
           [Attack ''mewtwo'' ''rattata'' ''psychic'' 176 [] [] 0 True,
            Message ''rattata fainted!''],
         Battle_end 1 ''mewtwo'' 181 0]\<rparr>"

section \<open>Properties of a turn and of the battle loop\<close>

text \<open>
  An attack never leaves its target below zero, and the event it pushes records the
  target's hit points.
\<close>

lemma attack_step_InrD:
  assumes "attack_step fl g actor target mvo = Inr (target', ev, g')"
  shows "0 \<le> current_hp target' \<and> is_Attack ev \<and> remaining_hp ev = current_hp target' \<and>
         name target' = name target"
  using assms by (auto simp: attack_step_def Let_def split: option.splits prod.splits)

lemma second_turn_props:
  assumes "second_turn fl g first second sm evs = Inr (first', second', evs', g')"
    and "0 < current_hp second"
  shows "second' = second \<and> 0 \<le> current_hp first' \<and> name first' = name first \<and>
         (\<exists>ev. filter is_Attack evs' = filter is_Attack evs @ [ev] \<and>
               remaining_hp ev = current_hp first')"
  using assms
  by (auto simp: second_turn_def fainted_message_def split: if_splits sum.splits
           dest!: attack_step_InrD)

lemma first_turn_props:
  assumes "first_turn fl g first second fm sm = Inr (first', second', evs, g')"
    and "0 < current_hp first" and "0 < current_hp second"
  shows "name first' = name first \<and> name second' = name second \<and>
         0 \<le> current_hp first' \<and> 0 \<le> current_hp second' \<and>
         (0 < current_hp first' \<or> 0 < current_hp second') \<and>
         filter is_Attack evs \<noteq> [] \<and>
         faint_ends_attacks (filter is_Attack evs) \<and>
         (\<forall>e \<in> set (filter is_Attack evs). 0 \<le> remaining_hp e) \<and>
         (0 < current_hp first' \<and> 0 < current_hp second' \<longrightarrow>
            (\<forall>e \<in> set (filter is_Attack evs). 0 < remaining_hp e))"
proof (cases "attack_step fl g first second fm")
  case (Inl e)
  with assms show ?thesis by (simp add: first_turn_def)
next
  case (Inr x)
  then obtain s1 ev1 g1 where a1: "attack_step fl g first second fm = Inr (s1, ev1, g1)"
    by (cases x) auto
  note p1 = attack_step_InrD [OF a1]
  show ?thesis
  proof (cases "current_hp s1 \<le> 0")
    case True
    with assms a1 p1 show ?thesis
      by (auto simp: first_turn_def fainted_message_def simp del: set_filter)
  next
    case False
    with assms a1 have st: "second_turn fl g1 first s1 sm [ev1] = Inr (first', second', evs, g')"
      by (simp add: first_turn_def)
    from False have "0 < current_hp s1" by simp
    from second_turn_props [OF st this] p1 False show ?thesis
      by (auto simp del: set_filter)
  qed
qed

lemma simulateTurn_props:
  assumes "simulateTurn fl g a d am dm = Inr (a', d', evs, g')"
    and "0 < current_hp a" and "0 < current_hp d"
  shows "name a' = name a \<and> name d' = name d \<and>
         0 \<le> current_hp a' \<and> 0 \<le> current_hp d' \<and>
         (0 < current_hp a' \<or> 0 < current_hp d') \<and>
         filter is_Attack evs \<noteq> [] \<and>
         faint_ends_attacks (filter is_Attack evs) \<and>
         (\<forall>e \<in> set (filter is_Attack evs). 0 \<le> remaining_hp e) \<and>
         (0 < current_hp a' \<and> 0 < current_hp d' \<longrightarrow>
            (\<forall>e \<in> set (filter is_Attack evs). 0 < remaining_hp e))"
proof (cases "speed (stats d) \<le> speed (stats a)")
  case True
  with assms have "first_turn fl g a d am dm = Inr (a', d', evs, g')"
    by (simp add: simulateTurn_def)
  from first_turn_props [OF this assms(2,3)] show ?thesis .
next
  case False
  with assms have "first_turn fl g d a dm am = Inr (d', a', evs, g')"
    by (auto simp: simulateTurn_def split: sum.splits)
  from first_turn_props [OF this assms(3,2)] show ?thesis by blast
qed

lemma battle_turn_props:
  assumes "battle_turn fl g p1 p2 = Inr (p1', p2', evs, g')"
    and "0 < current_hp p1" and "0 < current_hp p2"
  shows "name p1' = name p1 \<and> name p2' = name p2 \<and>
         0 \<le> current_hp p1' \<and> 0 \<le> current_hp p2' \<and>
         (0 < current_hp p1' \<or> 0 < current_hp p2') \<and>
         filter is_Attack evs \<noteq> [] \<and>
         faint_ends_attacks (filter is_Attack evs) \<and>
         (\<forall>e \<in> set (filter is_Attack evs). 0 \<le> remaining_hp e) \<and>
         (0 < current_hp p1' \<and> 0 < current_hp p2' \<longrightarrow>
            (\<forall>e \<in> set (filter is_Attack evs). 0 < remaining_hp e))"
proof -
  obtain m1 g1 where a: "pick_move fl g (moves p1) = (m1, g1)" by (cases "pick_move fl g (moves p1)")
  obtain m2 g2 where b: "pick_move fl g1 (moves p2) = (m2, g2)" by (cases "pick_move fl g1 (moves p2)")
  from assms(1) a b have "simulateTurn fl g2 p1 p2 m1 m2 = Inr (p1', p2', evs, g')"
    by (simp add: battle_turn_def)
  from simulateTurn_props [OF this assms(2,3)] show ?thesis .
qed

lemma faint_ends_attacks_append:
  "\<forall>e \<in> set xs. 0 < remaining_hp e \<Longrightarrow> faint_ends_attacks ys \<Longrightarrow> faint_ends_attacks (xs @ ys)"
proof (induction xs)
  case Nil
  then show ?case by simp
next
  case (Cons x xs)
  then have "faint_ends_attacks (xs @ ys)" by simp
  with Cons.prems show ?case by (cases "xs @ ys") auto
qed

lemma faint_ends_attacks_pos: "\<forall>e \<in> set xs. 0 < remaining_hp e \<Longrightarrow> faint_ends_attacks xs"
  using faint_ends_attacks_append [of xs "[]"] by simp



lemma attacks_of_simps:
  "attacks_of [] = []"
  "attacks_of (x # xs) = turn_attacks x @ attacks_of xs"
  "attacks_of (xs @ ys) = attacks_of xs @ attacks_of ys"
  by (simp_all add: attacks_of_def)

lemma battle_loop_props_ex:
  assumes "battle_loop fl N t p1 p2 g lg = Inr (t', p1', p2', g', lg')"
    and "0 < current_hp p1" and "0 < current_hp p2"
  shows "\<exists>ts. lg' = lg @ ts \<and> length ts = t' - t \<and> t \<le> t' \<and> list_all is_Turn ts \<and>
          name p1' = name p1 \<and> name p2' = name p2 \<and>
          (t < t' \<longrightarrow> of_nat t' \<le> N + 1) \<and>
          (of_nat t \<le> N \<longrightarrow> t < t') \<and>
          (current_hp p1' \<le> 0 \<or> current_hp p2' \<le> 0 \<or> N < of_nat t') \<and>
          0 \<le> current_hp p1' \<and> 0 \<le> current_hp p2' \<and>
          (0 < current_hp p1' \<or> 0 < current_hp p2') \<and>
          faint_ends_attacks (attacks_of ts) \<and>
          (\<forall>e \<in> set (attacks_of ts). 0 \<le> remaining_hp e) \<and>
          (\<forall>e \<in> set (attacks_of (butlast ts)). 0 < remaining_hp e) \<and>
          (0 < current_hp p1' \<and> 0 < current_hp p2' \<longrightarrow>
             (\<forall>e \<in> set (attacks_of ts). 0 < remaining_hp e))"
  using assms
proof (induction fl N t p1 p2 g lg rule: battle_loop.induct)
  case (1 fl N t p1 p2 g lg)
  note eq = "1.prems"(1) and pos = "1.prems"(2,3)
  show ?case
  proof (cases "of_nat t \<le> N")
    case False
    with eq pos have "t' = t \<and> p1' = p1 \<and> p2' = p2 \<and> lg' = lg"
      by (simp add: battle_loop.simps)
    with False pos show ?thesis by (simp add: attacks_of_simps)
  next
    case True
    with pos have cond: "of_nat t \<le> N \<and> 0 < current_hp p1 \<and> 0 < current_hp p2" by simp
    show ?thesis
    proof (cases "battle_turn fl g p1 p2")
      case (Inl e)
      with eq cond show ?thesis by (simp add: battle_loop.simps)
    next
      case (Inr b)
      obtain q1 q2 evs g1 where b: "b = (q1, q2, evs, g1)" by (cases b) auto
      with Inr have bt: "battle_turn fl g p1 p2 = Inr (q1, q2, evs, g1)" by simp
      note tp = battle_turn_props [OF bt pos]
      have ta: "attacks_of [Turn t evs] = filter is_Attack evs"
        by (simp add: attacks_of_def)
      show ?thesis
      proof (cases "current_hp q1 \<le> 0 \<or> current_hp q2 \<le> 0")
        case True
        with eq cond bt have r: "t' = Suc t \<and> p1' = q1 \<and> p2' = q2 \<and> lg' = lg @ [Turn t evs]"
          by (simp add: battle_loop.simps)
        have "lg' = lg @ [Turn t evs] \<and> length [Turn t evs] = t' - t \<and> t \<le> t' \<and>
              list_all is_Turn [Turn t evs]"
          using r by simp
        moreover have "name p1' = name p1 \<and> name p2' = name p2"
          using r tp by simp
        moreover have "(t < t' \<longrightarrow> of_nat t' \<le> N + 1) \<and> (of_nat t \<le> N \<longrightarrow> t < t')"
          using r cond by simp
        moreover have "current_hp p1' \<le> 0 \<or> current_hp p2' \<le> 0 \<or> N < of_nat t'"
          using r True by auto
        moreover have "0 \<le> current_hp p1' \<and> 0 \<le> current_hp p2' \<and>
              (0 < current_hp p1' \<or> 0 < current_hp p2')"
          using r tp by simp
        moreover have "faint_ends_attacks (attacks_of [Turn t evs]) \<and>
              (\<forall>e \<in> set (attacks_of [Turn t evs]). 0 \<le> remaining_hp e)"
          using tp unfolding ta by blast
        moreover have "\<forall>e \<in> set (attacks_of (butlast [Turn t evs])). 0 < remaining_hp e"
          by (simp add: attacks_of_simps)
        moreover have "0 < current_hp p1' \<and> 0 < current_hp p2' \<longrightarrow>
             (\<forall>e \<in> set (attacks_of [Turn t evs]). 0 < remaining_hp e)"
          using r True by auto
        ultimately show ?thesis by blast
      next
        case False
        with eq cond bt have r: "battle_loop fl N (Suc t) q1 q2 g1 (lg @ [Turn t evs])
                                 = Inr (t', p1', p2', g', lg')"
          by (simp add: battle_loop.simps)
        from False have qpos: "0 < current_hp q1" "0 < current_hp q2" by auto
        from "1.IH" [OF cond Inr _ _ _ False r qpos, of "(q2, evs, g1)" "(evs, g1)"] b
        obtain ts where ih:
          "lg' = (lg @ [Turn t evs]) @ ts" "length ts = t' - Suc t" "Suc t \<le> t'"
          "list_all is_Turn ts" "Suc t < t' \<longrightarrow> of_nat t' \<le> N + 1"
          "name p1' = name q1 \<and> name p2' = name q2"
          "current_hp p1' \<le> 0 \<or> current_hp p2' \<le> 0 \<or> N < of_nat t'"
          "0 \<le> current_hp p1' \<and> 0 \<le> current_hp p2' \<and> (0 < current_hp p1' \<or> 0 < current_hp p2')"
          "faint_ends_attacks (attacks_of ts)"
          "\<forall>e \<in> set (attacks_of ts). 0 \<le> remaining_hp e"
          "\<forall>e \<in> set (attacks_of (butlast ts)). 0 < remaining_hp e"
          "0 < current_hp p1' \<and> 0 < current_hp p2' \<longrightarrow>
             (\<forall>e \<in> set (attacks_of ts). 0 < remaining_hp e)"
          by auto
        from tp qpos have tpos: "\<forall>e \<in> set (filter is_Attack evs). 0 < remaining_hp e"
          by blast
        have "lg' = lg @ (Turn t evs # ts) \<and> length (Turn t evs # ts) = t' - t \<and> t \<le> t' \<and>
              list_all is_Turn (Turn t evs # ts)"
          using ih(1-4) by simp
        moreover have "name p1' = name p1 \<and> name p2' = name p2"
          using ih(6) tp by simp
        moreover have "(t < t' \<longrightarrow> of_nat t' \<le> N + 1) \<and> (of_nat t \<le> N \<longrightarrow> t < t')"
        proof (cases "Suc t < t'")
          case True
          with ih(5) show ?thesis by simp
        next
          case False
          with ih(3) have "t' = Suc t" by simp
          with cond show ?thesis by simp
        qed
        moreover have "faint_ends_attacks (attacks_of (Turn t evs # ts))"
          using faint_ends_attacks_append [OF tpos ih(9)] by (simp add: attacks_of_simps)
        moreover have "\<forall>e \<in> set (attacks_of (Turn t evs # ts)). 0 \<le> remaining_hp e"
          using tpos ih(10) by (auto simp: attacks_of_simps simp del: set_filter)
        moreover have "\<forall>e \<in> set (attacks_of (butlast (Turn t evs # ts))). 0 < remaining_hp e"
          using tpos ih(11) by (auto simp: attacks_of_simps simp del: set_filter)
        moreover have "0 < current_hp p1' \<and> 0 < current_hp p2' \<longrightarrow>
             (\<forall>e \<in> set (attacks_of (Turn t evs # ts)). 0 < remaining_hp e)"
          using tpos ih(12) by (auto simp: attacks_of_simps simp del: set_filter)
        ultimately show ?thesis using ih(7,8) by blast
      qed
    qed
  qed
qed

text \<open>
  The same facts one by one, for the entries \<open>drop (length lg) lg'\<close> that the loop
  appended to the log.
\<close>

lemma battle_loop_props:
  assumes "battle_loop fl N t p1 p2 g lg = Inr (t', p1', p2', g', lg')"
    and "0 < current_hp p1" and "0 < current_hp p2"
  shows "lg' = lg @ drop (length lg) lg'"
    and "length (drop (length lg) lg') = t' - t"
    and "t \<le> t'"
    and "list_all is_Turn (drop (length lg) lg')"
    and "name p1' = name p1"
    and "name p2' = name p2"
    and "t < t' \<longrightarrow> of_nat t' \<le> N + 1"
    and "of_nat t \<le> N \<longrightarrow> t < t'"
    and "current_hp p1' \<le> 0 \<or> current_hp p2' \<le> 0 \<or> N < of_nat t'"
    and "0 \<le> current_hp p1'"
    and "0 \<le> current_hp p2'"
    and "0 < current_hp p1' \<or> 0 < current_hp p2'"
    and "faint_ends_attacks (attacks_of (drop (length lg) lg'))"
    and "\<forall>e \<in> set (attacks_of (drop (length lg) lg')). 0 \<le> remaining_hp e"
    and "\<forall>e \<in> set (attacks_of (butlast (drop (length lg) lg'))). 0 < remaining_hp e"
    and "0 < current_hp p1' \<and> 0 < current_hp p2' \<longrightarrow>
           (\<forall>e \<in> set (attacks_of (drop (length lg) lg')). 0 < remaining_hp e)"
proof -
  from battle_loop_props_ex [OF assms] obtain ts where
    c: "lg' = lg @ ts \<and> length ts = t' - t \<and> t \<le> t' \<and> list_all is_Turn ts \<and>
          name p1' = name p1 \<and> name p2' = name p2 \<and>
          (t < t' \<longrightarrow> of_nat t' \<le> N + 1) \<and>
          (of_nat t \<le> N \<longrightarrow> t < t') \<and>
          (current_hp p1' \<le> 0 \<or> current_hp p2' \<le> 0 \<or> N < of_nat t') \<and>
          0 \<le> current_hp p1' \<and> 0 \<le> current_hp p2' \<and>
          (0 < current_hp p1' \<or> 0 < current_hp p2') \<and>
          faint_ends_attacks (attacks_of ts) \<and>
          (\<forall>e \<in> set (attacks_of ts). 0 \<le> remaining_hp e) \<and>
          (\<forall>e \<in> set (attacks_of (butlast ts)). 0 < remaining_hp e) \<and>
          (0 < current_hp p1' \<and> 0 < current_hp p2' \<longrightarrow>
             (\<forall>e \<in> set (attacks_of ts). 0 < remaining_hp e))" ..
  then have d: "drop (length lg) lg' = ts" by simp
  from c show "lg' = lg @ drop (length lg) lg'" unfolding d by (rule conjunct1)
  note c = c [THEN conjunct2]
  from c show "length (drop (length lg) lg') = t' - t" unfolding d by (rule conjunct1)
  note c = c [THEN conjunct2]
  from c show "t \<le> t'" by (rule conjunct1)
  note c = c [THEN conjunct2]
  from c show "list_all is_Turn (drop (length lg) lg')" unfolding d by (rule conjunct1)
  note c = c [THEN conjunct2]
  from c show "name p1' = name p1" by (rule conjunct1)
  note c = c [THEN conjunct2]
  from c show "name p2' = name p2" by (rule conjunct1)
  note c = c [THEN conjunct2]
  from c show "t < t' \<longrightarrow> of_nat t' \<le> N + 1" by (rule conjunct1)
  note c = c [THEN conjunct2]
  from c show "of_nat t \<le> N \<longrightarrow> t < t'" by (rule conjunct1)
  note c = c [THEN conjunct2]
  from c show "current_hp p1' \<le> 0 \<or> current_hp p2' \<le> 0 \<or> N < of_nat t'" by (rule conjunct1)
  note c = c [THEN conjunct2]
  from c show "0 \<le> current_hp p1'" by (rule conjunct1)
  note c = c [THEN conjunct2]
  from c show "0 \<le> current_hp p2'" by (rule conjunct1)
  note c = c [THEN conjunct2]
  from c show "0 < current_hp p1' \<or> 0 < current_hp p2'" by (rule conjunct1)
  note c = c [THEN conjunct2]
  from c show "faint_ends_attacks (attacks_of (drop (length lg) lg'))"
    unfolding d by (rule conjunct1)
  note c = c [THEN conjunct2]
  from c show "\<forall>e \<in> set (attacks_of (drop (length lg) lg')). 0 \<le> remaining_hp e"
    unfolding d by (rule conjunct1)
  note c = c [THEN conjunct2]
  from c show "\<forall>e \<in> set (attacks_of (butlast (drop (length lg) lg'))). 0 < remaining_hp e"
    unfolding d by (rule conjunct1)
  note c = c [THEN conjunct2]
  from c show "0 < current_hp p1' \<and> 0 < current_hp p2' \<longrightarrow>
           (\<forall>e \<in> set (attacks_of (drop (length lg) lg')). 0 < remaining_hp e)"
    unfolding d .
qed

text \<open>What \<open>fetchPokemonForBattle\<close> and the \<open>try\<close> block return.\<close>

lemma calculateHP_pos: "0 < calculateHP (int b) 50 31 0"
proof -
  have "(0::rat) \<le> of_int ((2 * int b + 31 + 0 div 4) * 50) / 100" by simp
  then have "0 \<le> \<lfloor>(of_int ((2 * int b + 31 + 0 div 4) * 50) :: rat) / 100\<rfloor>" by simp
  then show ?thesis unfolding calculateHP_def by linarith
qed

lemma calculateStat_ge_5: "5 \<le> calculateStat (int b) 50 31 0 1"
proof -
  have "(0::rat) \<le> of_int ((2 * int b + 31 + 0 div 4) * 50) / 100" by simp
  then have "(5::rat) \<le> (of_int ((2 * int b + 31 + 0 div 4) * 50) / 100 + 5) * 1" by simp
  then show ?thesis unfolding calculateStat_def by (simp only: le_floor_iff of_int_numeral)
qed

lemma base_stat_cases: "(\<exists>b. base_stat d n = Inr (int b)) \<or> base_stat d n = Inl TypeError"
  by (simp add: base_stat_def split: option.splits)

lemma fetchPokemonForBattle_InrD:
  assumes "fetchPokemonForBattle remote i = Inr p"
  shows "\<exists>d. remote i = Some d \<and> name p = api_name d \<and> 0 < current_hp p"
proof (cases "remote i")
  case None
  with assms show ?thesis by (simp add: fetchPokemonForBattle_def)
next
  case (Some d)
  from base_stat_cases [of d "''hp''"] show ?thesis
  proof
    assume "base_stat d ''hp'' = Inl TypeError"
    with assms Some show ?thesis by (simp add: fetchPokemonForBattle_def)
  next
    assume "\<exists>b. base_stat d ''hp'' = Inr (int b)"
    then obtain b where b: "base_stat d ''hp'' = Inr (int b)" ..
    from assms Some b have "name p = api_name d \<and> current_hp p = calculateHP (int b) 50 31 0"
      by (auto simp: fetchPokemonForBattle_def split: sum.splits)
    with Some calculateHP_pos [of b] show ?thesis by simp
  qed
qed

lemma battle_body_InrD:
  assumes "battle_body remote fl g inp = Inr r"
  shows "\<exists>p1 p2 t' p1' p2' g' lg'.
           fetchPokemonForBattle remote (pokemon1 inp) = Inr p1 \<and>
           fetchPokemonForBattle remote (pokemon2 inp) = Inr p2 \<and>
           battle_loop fl (maxTurns_of inp) 1 p1 p2 g
             [Battle_start (combatant_info_of p1) (combatant_info_of p2)]
             = Inr (t', p1', p2', g', lg') \<and>
           winner r = winner_of p1' p2' \<and>
           battle_log r = lg' @ [Battle_end (t' - 1) (winner_of p1' p2')
                                            (current_hp p1') (current_hp p2')]"
proof (cases "fetchPokemonForBattle remote (pokemon1 inp)")
  case (Inl e)
  with assms show ?thesis by (simp add: battle_body_def)
next
  case p1: (Inr p1)
  show ?thesis
  proof (cases "fetchPokemonForBattle remote (pokemon2 inp)")
    case (Inl e)
    with assms p1 show ?thesis by (simp add: battle_body_def)
  next
    case p2: (Inr p2)
    show ?thesis
    proof (cases "battle_loop fl (maxTurns_of inp) 1 p1 p2 g
                    [Battle_start (combatant_info_of p1) (combatant_info_of p2)]")
      case (Inl e)
      with assms p1 p2 show ?thesis by (simp add: battle_body_def)
    next
      case (Inr x)
      obtain t' p1' p2' g' lg' where x: "x = (t', p1', p2', g', lg')" by (cases x) auto
      with assms p1 p2 Inr
      have "r = \<lparr>winner = winner_of p1' p2',
                 battle_log = lg' @ [Battle_end (t' - 1) (winner_of p1' p2')
                                                (current_hp p1') (current_hp p2')]\<rparr>"
        by (simp add: battle_body_def)
      then have "winner r = winner_of p1' p2' \<and>
                 battle_log r = lg' @ [Battle_end (t' - 1) (winner_of p1' p2')
                                                (current_hp p1') (current_hp p2')]"
        by simp
      with p1 p2 Inr x show ?thesis by blast
    qed
  qed
qed

lemma battle_pokemon_SuccessD:
  "battle_pokemon remote fl g inp = Returned (Success r) \<Longrightarrow> battle_body remote fl g inp = Inr r"
  by (simp add: battle_pokemon_def split: sum.splits)

lemma fetched_stats_positive:
  assumes "fetchPokemonForBattle remote i = Inr p"
  shows "5 \<le> defense (stats p) \<and> 5 \<le> special_defense (stats p)"
proof (cases "remote i")
  case None
  with assms show ?thesis by (simp add: fetchPokemonForBattle_def)
next
  case (Some d)
  have "\<exists>b. base_stat d n = Inr (int b)" if "base_stat d n \<noteq> Inl TypeError" for n
    using base_stat_cases [of d n] that by blast
  with assms Some obtain b1 b2 where
    "defense (stats p) = calculateStat (int b1) 50 31 0 1"
    "special_defense (stats p) = calculateStat (int b2) 50 31 0 1"
    by (auto simp: fetchPokemonForBattle_def base_stat_def split: option.splits)
  with calculateStat_ge_5 show ?thesis by simp
qed

text \<open>
  What the loop over the defender's types computes: the product of the chart entries,
  in which an absent entry and an entry of \<open>0\<close> both count as \<open>1\<close>.
\<close>

lemma fold_effectiveness_step:
  "fold (effectiveness_step mt) ts acc =
     acc * prod_list (map (\<lambda>t. case chart_entry mt t of
                                  None \<Rightarrow> 1 | Some v \<Rightarrow> if v = 0 then 1 else v) ts)"
  by (induction ts arbitrary: acc) (simp_all add: effectiveness_step_def split: option.splits)

lemma type_effectiveness_product:
  "type_effectiveness mv defender =
     prod_list (map (\<lambda>t. case chart_entry (mv_type mv) t of
                           None \<Rightarrow> 1 | Some v \<Rightarrow> if v = 0 then 1 else v) (types defender))"
  by (simp add: type_effectiveness_def fold_effectiveness_step)

text \<open>A combatant at zero skips its half of the turn, and the loop runs no turn for it.\<close>

lemma first_turn_skips_fainted:
  "current_hp first \<le> 0 \<Longrightarrow>
     first_turn fl g first second fm sm = second_turn fl g first second sm []"
  by (simp add: first_turn_def)

lemma second_turn_skips_fainted:
  "current_hp second \<le> 0 \<Longrightarrow>
     second_turn fl g first second sm evs = Inr (first, second, evs, g)"
  by (simp add: second_turn_def)

lemma battle_loop_stops_on_faint:
  "current_hp p1 \<le> 0 \<or> current_hp p2 \<le> 0 \<Longrightarrow>
     battle_loop fl N t p1 p2 g lg = Inr (t, p1, p2, g, lg)"
  by (auto simp: battle_loop.simps)

section \<open>The example battle\<close>

lemma fetch_examples:
  "fetchPokemonForBattle example_remote ''mewtwo'' = Inr mewtwo"
  "fetchPokemonForBattle example_remote ''rattata'' = Inr rattata"
  "fetchPokemonForBattle example_remote ''gastly'' = Inr gastly"
  by code_simp+

lemma example_battle:
  "battle_body example_remote exact half_draws mewtwo_vs_rattata = Inr mewtwo_vs_rattata_result"
  by code_simp

lemma example_run:
  "battle_pokemon example_remote exact half_draws mewtwo_vs_rattata
     = Returned (Success mewtwo_vs_rattata_result)"
  by (simp add: battle_pokemon_def example_battle)

lemma example_loop:
  "(case battle_loop exact 10 1 mewtwo rattata half_draws [] of
      Inl e \<Rightarrow> False
    | Inr (t', p1', p2', g', lg') \<Rightarrow> t' = 2 \<and> current_hp p1' = 181 \<and> current_hp p2' = 0)"
  by code_simp

lemma example_turn:
  "(case simulateTurn exact half_draws rattata mewtwo (Some tackle) (Some psychic) of
      Inl e \<Rightarrow> False
    | Inr (a', d', evs, g') \<Rightarrow>
        evs = [Attack ''mewtwo'' ''rattata'' ''psychic'' 176 [] [] 0 True,
               Message ''rattata fainted!''])"
  by code_simp

section \<open>calculateDamage: type effectiveness and STAB\<close>

text \<open>
  C1. The claim: the effectiveness multiplier of \<open>calculateDamage\<close> is the product of the
  chart entries for the move type against each type of the defender, an absent pair
  counting as \<open>1\<close>, so that an entry of \<open>0\<close> makes the multiplier \<open>0\<close>. The code skips
  an entry of \<open>0\<close>, because its guard tests the entry for truthiness: for the normal move
  \<open>tackle\<close> against \<open>gastly\<close>, of types ghost and poison, the chart holds \<open>0\<close> for
  (normal, ghost) and nothing for (normal, poison), so the product is \<open>0\<close>, and the
  multiplier computed is \<open>1\<close>, whatever the draws and the rounding.
\<close>

theorem zero_chart_entry_is_skipped:
  "chart_entry ''normal'' ''ghost'' = Some 0 \<and>
   chart_entry ''normal'' ''poison'' = None \<and>
   power tackle = Some 40 \<and> mv_type tackle = ''normal'' \<and>
   types gastly = [''ghost'', ''poison''] \<and>
   effectiveness (fst (calculateDamage fl g rattata gastly tackle)) = 1"
  by (simp add: chart_entry_def TYPE_EFFECTIVENESS_def calculateDamage_def tackle_def gastly_def
        type_effectiveness_def effectiveness_step_def random_def)

text \<open>
  C6. For a move of positive power, the STAB factor is \<open>1.5\<close> exactly when the move's
  type is among the attacker's types and \<open>1\<close> otherwise; the base damage is multiplied by
  it and then floored, and the damage returned is computed from that value by the
  effectiveness, random-factor and critical-hit stages.
\<close>

theorem stab_iff_attacker_has_move_type:
  assumes "power mv = Some p" and "0 < p"
  shows "(stab attacker mv = 3/2) = (mv_type mv \<in> set (types attacker)) \<and>
         (stab attacker mv = 1) = (mv_type mv \<notin> set (types attacker)) \<and>
         damage_after_stab fl attacker defender mv =
           \<lfloor>of_int (base_damage fl attacker defender mv) *
              (if mv_type mv \<in> set (types attacker) then 3/2 else 1 :: rat)\<rfloor> \<and>
         damage (fst (calculateDamage fl g attacker defender mv)) =
           damage_after_critical (g 1 < 1/16)
             (damage_after_random fl (g 0)
                \<lfloor>of_int (damage_after_stab fl attacker defender mv) *
                   type_effectiveness mv defender\<rfloor>)"
proof -
  have s: "stab attacker mv = (if mv_type mv \<in> set (types attacker) then 3/2 else 1)"
    by (auto simp: stab_def list_ex_iff)
  have c: "damage (fst (calculateDamage fl g attacker defender mv)) =
           damage_after_critical (g 1 < 1/16)
             (damage_after_random fl (g 0)
                \<lfloor>of_int (damage_after_stab fl attacker defender mv) *
                   type_effectiveness mv defender\<rfloor>)"
    using assms
    by (simp add: calculateDamage_def random_def damage_after_effectiveness_def)
  from s c show ?thesis by (simp add: damage_after_stab_def)
qed

theorem stab_iff_attacker_has_move_type_witness:
  "power psychic = Some 90 \<and> (0::nat) < 90 \<and>
   stab mewtwo psychic = 3/2 \<and> stab rattata psychic = 1 \<and>
   damage_after_stab exact mewtwo rattata psychic =
     \<lfloor>of_int (base_damage exact mewtwo rattata psychic) * (3/2 :: rat)\<rfloor> \<and>
   damage_after_stab exact rattata mewtwo psychic = base_damage exact rattata mewtwo psychic"
proof -
  have p: "power psychic = Some 90" by (simp add: psychic_def)
  have t: "mv_type psychic \<in> set (types mewtwo)" "mv_type psychic \<notin> set (types rattata)"
    by (simp_all add: psychic_def mewtwo_def rattata_def)
  from stab_iff_attacker_has_move_type [OF p, of mewtwo exact rattata half_draws]
       stab_iff_attacker_has_move_type [OF p, of rattata exact mewtwo half_draws] p t
  show ?thesis by simp
qed

section \<open>simulateTurn: who attacks first\<close>

text \<open>
  C7. In a turn that both combatants enter with positive hit points, the first event is
  the attack of the combatant with the strictly higher speed on the other one, made on
  the state at the start of the turn; with equal speeds it is the attack of the first
  argument (\<open>pokemon1\<close> in the battle loop).
\<close>

theorem faster_combatant_attacks_first:
  assumes "simulateTurn fl g attacker defender attackerMove defenderMove = Inr (a', d', evs, g')"
    and "0 < current_hp attacker" and "0 < current_hp defender"
  shows "evs \<noteq> [] \<and>
         (speed (stats defender) < speed (stats attacker) \<longrightarrow>
            (\<exists>t g1. attack_step fl g attacker defender attackerMove = Inr (t, hd evs, g1))) \<and>
         (speed (stats attacker) < speed (stats defender) \<longrightarrow>
            (\<exists>t g1. attack_step fl g defender attacker defenderMove = Inr (t, hd evs, g1))) \<and>
         (speed (stats attacker) = speed (stats defender) \<longrightarrow>
            (\<exists>t g1. attack_step fl g attacker defender attackerMove = Inr (t, hd evs, g1)))"
proof -
  have ft: "evs \<noteq> [] \<and> (\<exists>t g1. attack_step fl g first second fm = Inr (t, hd evs, g1))"
    if "first_turn fl g first second fm sm = Inr (f', s', evs, g')" "0 < current_hp first"
    for first second fm sm f' s'
  proof (cases "attack_step fl g first second fm")
    case (Inl e)
    with that show ?thesis by (simp add: first_turn_def)
  next
    case (Inr x)
    obtain s1 ev1 g1 where x: "x = (s1, ev1, g1)" by (cases x) auto
    show ?thesis
    proof (cases "current_hp s1 \<le> 0")
      case True
      with that Inr x show ?thesis by (auto simp: first_turn_def)
    next
      case False
      with that Inr x have "second_turn fl g1 first s1 sm [ev1] = Inr (f', s', evs, g')"
        by (simp add: first_turn_def)
      then have "hd evs = ev1 \<and> evs \<noteq> []"
        by (auto simp: second_turn_def split: if_splits sum.splits)
      with Inr x show ?thesis by simp
    qed
  qed
  show ?thesis
  proof (cases "speed (stats defender) \<le> speed (stats attacker)")
    case True
    with assms(1) have "first_turn fl g attacker defender attackerMove defenderMove
                        = Inr (a', d', evs, g')"
      by (simp add: simulateTurn_def)
    from ft [OF this assms(2)] True show ?thesis by auto
  next
    case False
    with assms(1) have "first_turn fl g defender attacker defenderMove attackerMove
                        = Inr (d', a', evs, g')"
      by (auto simp: simulateTurn_def split: sum.splits)
    from ft [OF this assms(3)] False show ?thesis by auto
  qed
qed

theorem faster_combatant_attacks_first_witness:
  "0 < current_hp rattata \<and> 0 < current_hp mewtwo \<and>
   speed (stats rattata) < speed (stats mewtwo) \<and>
   (\<exists>a' d' evs g'.
      simulateTurn exact half_draws rattata mewtwo (Some tackle) (Some psychic)
        = Inr (a', d', evs, g') \<and>
      evs \<noteq> [] \<and>
      (\<exists>t g1. attack_step exact half_draws mewtwo rattata (Some psychic) = Inr (t, hd evs, g1)))"
proof -
  have h: "0 < current_hp rattata" "0 < current_hp mewtwo"
    "speed (stats rattata) < speed (stats mewtwo)"
    by (simp_all add: rattata_def mewtwo_def)
  obtain a' d' evs g' where
    r: "simulateTurn exact half_draws rattata mewtwo (Some tackle) (Some psychic)
          = Inr (a', d', evs, g')"
  proof (cases "simulateTurn exact half_draws rattata mewtwo (Some tackle) (Some psychic)")
    case (Inl e)
    with example_turn show ?thesis by simp
  next
    case (Inr x)
    with that show ?thesis by (cases x) auto
  qed
  note c = faster_combatant_attacks_first [OF r h(1,2)]
  from c have e: "evs \<noteq> []" by (rule conjunct1)
  from c [THEN conjunct2, THEN conjunct2, THEN conjunct1] h(3)
  have "\<exists>t g1. attack_step exact half_draws mewtwo rattata (Some psychic) = Inr (t, hd evs, g1)"
    by (rule mp)
  with r e have "simulateTurn exact half_draws rattata mewtwo (Some tackle) (Some psychic)
        = Inr (a', d', evs, g') \<and>
      evs \<noteq> [] \<and>
      (\<exists>t g1. attack_step exact half_draws mewtwo rattata (Some psychic) = Inr (t, hd evs, g1))"
    by (intro conjI)
  then have "\<exists>a' d' evs g'.
      simulateTurn exact half_draws rattata mewtwo (Some tackle) (Some psychic)
        = Inr (a', d', evs, g') \<and>
      evs \<noteq> [] \<and>
      (\<exists>t g1. attack_step exact half_draws mewtwo rattata (Some psychic) = Inr (t, hd evs, g1))"
    by blast
  with h show ?thesis by (intro conjI)
qed

section \<open>battle_pokemon: winner, turn cap and fainting\<close>

text \<open>
  C3. When the battle ends, the winner reported is the name of the combatant with the
  strictly higher remaining hit points, and \<open>draw\<close> is reported when the two are equal;
  neither is negative, so a combatant at zero loses to one above zero and both at zero is
  a tie. Unless a combatant is itself named \<open>draw\<close>, a draw is reported exactly when
  the remaining hit points are equal.
\<close>

theorem battle_winner_has_more_hp:
  assumes "battle_pokemon remote fl g inp = Returned (Success r)"
  shows "\<exists>d1 d2 lg n h1 h2.
           remote (pokemon1 inp) = Some d1 \<and> remote (pokemon2 inp) = Some d2 \<and>
           battle_log r = lg @ [Battle_end n (winner r) h1 h2] \<and>
           0 \<le> h1 \<and> 0 \<le> h2 \<and>
           (h2 < h1 \<longrightarrow> winner r = api_name d1) \<and>
           (h1 < h2 \<longrightarrow> winner r = api_name d2) \<and>
           (h1 = h2 \<longrightarrow> winner r = ''draw'') \<and>
           (api_name d1 \<noteq> ''draw'' \<and> api_name d2 \<noteq> ''draw'' \<longrightarrow>
              (winner r = ''draw'') = (h1 = h2))"
proof -
  from battle_body_InrD [OF battle_pokemon_SuccessD [OF assms]] obtain p1 p2 t' p1' p2' g' lg' where
    f1: "fetchPokemonForBattle remote (pokemon1 inp) = Inr p1" and
    f2: "fetchPokemonForBattle remote (pokemon2 inp) = Inr p2" and
    lp: "battle_loop fl (maxTurns_of inp) 1 p1 p2 g
           [Battle_start (combatant_info_of p1) (combatant_info_of p2)]
           = Inr (t', p1', p2', g', lg')" and
    w: "winner r = winner_of p1' p2'" and
    lg: "battle_log r = lg' @ [Battle_end (t' - 1) (winner_of p1' p2')
                                         (current_hp p1') (current_hp p2')]"
    by blast
  from fetchPokemonForBattle_InrD [OF f1] obtain d1 where
    d1: "remote (pokemon1 inp) = Some d1" "name p1 = api_name d1" "0 < current_hp p1" by blast
  from fetchPokemonForBattle_InrD [OF f2] obtain d2 where
    d2: "remote (pokemon2 inp) = Some d2" "name p2 = api_name d2" "0 < current_hp p2" by blast
  note L = battle_loop_props [OF lp d1(3) d2(3)]
  have nm: "name p1' = api_name d1" "name p2' = api_name d2"
    using L(5,6) d1(2) d2(2) by simp_all
  have hp: "0 \<le> current_hp p1'" "0 \<le> current_hp p2'" by (rule L(10), rule L(11))
  let ?h1 = "current_hp p1'" and ?h2 = "current_hp p2'"
  have a: "?h2 < ?h1 \<longrightarrow> winner r = api_name d1"
    using w nm hp by (simp add: winner_of_def)
  have b: "?h1 < ?h2 \<longrightarrow> winner r = api_name d2"
    using w nm hp by (simp add: winner_of_def)
  have c: "?h1 = ?h2 \<longrightarrow> winner r = ''draw''"
    using w by (simp add: winner_of_def)
  have d: "api_name d1 \<noteq> ''draw'' \<and> api_name d2 \<noteq> ''draw'' \<longrightarrow>
             (winner r = ''draw'') = (?h1 = ?h2)"
  proof (cases "?h1 = ?h2")
    case True
    with c show ?thesis by simp
  next
    case False
    then have "?h2 < ?h1 \<or> ?h1 < ?h2" by linarith
    with a b False show ?thesis by auto
  qed
  from lg w have e: "battle_log r = lg' @ [Battle_end (t' - 1) (winner r) ?h1 ?h2]" by simp
  have "remote (pokemon1 inp) = Some d1 \<and> remote (pokemon2 inp) = Some d2 \<and>
        battle_log r = lg' @ [Battle_end (t' - 1) (winner r) ?h1 ?h2] \<and>
        0 \<le> ?h1 \<and> 0 \<le> ?h2 \<and>
        (?h2 < ?h1 \<longrightarrow> winner r = api_name d1) \<and>
        (?h1 < ?h2 \<longrightarrow> winner r = api_name d2) \<and>
        (?h1 = ?h2 \<longrightarrow> winner r = ''draw'') \<and>
        (api_name d1 \<noteq> ''draw'' \<and> api_name d2 \<noteq> ''draw'' \<longrightarrow>
           (winner r = ''draw'') = (?h1 = ?h2))"
    using d1(1) d2(1) e hp a b c d by (intro conjI)
  then show ?thesis by blast
qed

theorem battle_winner_has_more_hp_witness:
  "battle_pokemon example_remote exact half_draws mewtwo_vs_rattata
     = Returned (Success mewtwo_vs_rattata_result) \<and>
   (\<exists>d1 d2 lg n h1 h2.
      example_remote (pokemon1 mewtwo_vs_rattata) = Some d1 \<and>
      example_remote (pokemon2 mewtwo_vs_rattata) = Some d2 \<and>
      battle_log mewtwo_vs_rattata_result
        = lg @ [Battle_end n (winner mewtwo_vs_rattata_result) h1 h2] \<and>
      0 \<le> h1 \<and> 0 \<le> h2 \<and>
      (h2 < h1 \<longrightarrow> winner mewtwo_vs_rattata_result = api_name d1) \<and>
      (h1 < h2 \<longrightarrow> winner mewtwo_vs_rattata_result = api_name d2) \<and>
      (h1 = h2 \<longrightarrow> winner mewtwo_vs_rattata_result = ''draw'') \<and>
      (api_name d1 \<noteq> ''draw'' \<and> api_name d2 \<noteq> ''draw'' \<longrightarrow>
         (winner mewtwo_vs_rattata_result = ''draw'') = (h1 = h2)))"
proof
  show "battle_pokemon example_remote exact half_draws mewtwo_vs_rattata
          = Returned (Success mewtwo_vs_rattata_result)"
    by (rule example_run)
  show "\<exists>d1 d2 lg n h1 h2.
      example_remote (pokemon1 mewtwo_vs_rattata) = Some d1 \<and>
      example_remote (pokemon2 mewtwo_vs_rattata) = Some d2 \<and>
      battle_log mewtwo_vs_rattata_result
        = lg @ [Battle_end n (winner mewtwo_vs_rattata_result) h1 h2] \<and>
      0 \<le> h1 \<and> 0 \<le> h2 \<and>
      (h2 < h1 \<longrightarrow> winner mewtwo_vs_rattata_result = api_name d1) \<and>
      (h1 < h2 \<longrightarrow> winner mewtwo_vs_rattata_result = api_name d2) \<and>
      (h1 = h2 \<longrightarrow> winner mewtwo_vs_rattata_result = ''draw'') \<and>
      (api_name d1 \<noteq> ''draw'' \<and> api_name d2 \<noteq> ''draw'' \<longrightarrow>
         (winner mewtwo_vs_rattata_result = ''draw'') = (h1 = h2))"
    by (rule battle_winner_has_more_hp [OF example_run])
qed

text \<open>
  C4. In the log of a battle, no attack follows an attack that left its target at zero
  hit points: the combatant brought to zero makes no attack later in that turn, and no
  later turn has any attack. In the code this is so because a combatant at zero skips
  its half of a turn, first or second, and the loop runs no turn once a combatant is at
  zero.
\<close>

theorem fainted_combatant_takes_no_action:
  assumes "battle_pokemon remote fl g inp = Returned (Success r)"
  shows "faint_ends_attacks (attacks_of (battle_log r)) \<and>
         (\<forall>first second fm sm g0. current_hp first \<le> 0 \<longrightarrow>
            first_turn fl g0 first second fm sm = second_turn fl g0 first second sm []) \<and>
         (\<forall>first second sm evs g0. current_hp second \<le> 0 \<longrightarrow>
            second_turn fl g0 first second sm evs = Inr (first, second, evs, g0)) \<and>
         (\<forall>N t p1 p2 g0 lg. current_hp p1 \<le> 0 \<or> current_hp p2 \<le> 0 \<longrightarrow>
            battle_loop fl N t p1 p2 g0 lg = Inr (t, p1, p2, g0, lg))"
proof -
  from battle_body_InrD [OF battle_pokemon_SuccessD [OF assms]] obtain p1 p2 t' p1' p2' g' lg' where
    f1: "fetchPokemonForBattle remote (pokemon1 inp) = Inr p1" and
    f2: "fetchPokemonForBattle remote (pokemon2 inp) = Inr p2" and
    lp: "battle_loop fl (maxTurns_of inp) 1 p1 p2 g
           [Battle_start (combatant_info_of p1) (combatant_info_of p2)]
           = Inr (t', p1', p2', g', lg')" and
    w: "winner r = winner_of p1' p2'" and
    lg: "battle_log r = lg' @ [Battle_end (t' - 1) (winner_of p1' p2')
                                         (current_hp p1') (current_hp p2')]"
    by blast
  from fetchPokemonForBattle_InrD [OF f1] obtain d1 where
    d1: "remote (pokemon1 inp) = Some d1" "name p1 = api_name d1" "0 < current_hp p1" by blast
  from fetchPokemonForBattle_InrD [OF f2] obtain d2 where
    d2: "remote (pokemon2 inp) = Some d2" "name p2 = api_name d2" "0 < current_hp p2" by blast
  note L = battle_loop_props [OF lp d1(3) d2(3)]
  define ts where
    "ts = drop (length [Battle_start (combatant_info_of p1) (combatant_info_of p2)]) lg'"
  from L(1) have l: "lg' = [Battle_start (combatant_info_of p1) (combatant_info_of p2)] @ ts"
    unfolding ts_def .
  from L(13) have f: "faint_ends_attacks (attacks_of ts)" unfolding ts_def .
  from lg l have "attacks_of (battle_log r) = attacks_of ts"
    by (simp add: attacks_of_simps)
  with f have "faint_ends_attacks (attacks_of (battle_log r))" by simp
  then show ?thesis
    using first_turn_skips_fainted second_turn_skips_fainted battle_loop_stops_on_faint
    by (intro conjI allI impI)
qed

theorem fainted_combatant_takes_no_action_witness:
  "battle_pokemon example_remote exact half_draws mewtwo_vs_rattata
     = Returned (Success mewtwo_vs_rattata_result) \<and>
   faint_ends_attacks (attacks_of (battle_log mewtwo_vs_rattata_result)) \<and>
   current_hp (rattata\<lparr>current_hp := 0\<rparr>) \<le> 0 \<and>
   battle_loop exact 10 2 mewtwo (rattata\<lparr>current_hp := 0\<rparr>) half_draws []
     = Inr (2, mewtwo, rattata\<lparr>current_hp := 0\<rparr>, half_draws, [])"
proof -
  note c = fainted_combatant_takes_no_action [OF example_run]
  have z: "current_hp (rattata\<lparr>current_hp := 0\<rparr>) \<le> 0" by simp
  then have "current_hp mewtwo \<le> 0 \<or> current_hp (rattata\<lparr>current_hp := 0\<rparr>) \<le> 0" by simp
  with c have "battle_loop exact 10 2 mewtwo (rattata\<lparr>current_hp := 0\<rparr>) half_draws []
     = Inr (2, mewtwo, rattata\<lparr>current_hp := 0\<rparr>, half_draws, [])"
    by blast
  with example_run c [THEN conjunct1] z show ?thesis by (intro conjI)
qed

text \<open>
  C5. With the turn cap \<open>N\<close> that \<open>run\<close> computes from its input, the log of a battle
  holds its turns between the start and the end entry; their number is the
  \<open>turns_simulated\<close> reported in the end entry; it is at most \<open>N\<close> (none when \<open>N\<close>
  is negative); the loop ends below the cap only with a combatant at zero; and in every
  turn but the last one each attack left its target above zero.
\<close>

theorem battle_within_turn_cap:
  assumes "battle_pokemon remote fl g inp = Returned (Success r)"
  shows "\<exists>st ts n w h1 h2.
           battle_log r = st # ts @ [Battle_end n w h1 h2] \<and>
           list_all is_Turn ts \<and> length ts = n \<and>
           (0 \<le> maxTurns_of inp \<longrightarrow> of_nat n \<le> maxTurns_of inp) \<and>
           (maxTurns_of inp < 0 \<longrightarrow> n = 0) \<and>
           (h1 \<le> 0 \<or> h2 \<le> 0 \<or> maxTurns_of inp < of_nat n + 1) \<and>
           (\<forall>e \<in> set (attacks_of (butlast ts)). 0 < remaining_hp e)"
proof -
  from battle_body_InrD [OF battle_pokemon_SuccessD [OF assms]] obtain p1 p2 t' p1' p2' g' lg' where
    f1: "fetchPokemonForBattle remote (pokemon1 inp) = Inr p1" and
    f2: "fetchPokemonForBattle remote (pokemon2 inp) = Inr p2" and
    lp: "battle_loop fl (maxTurns_of inp) 1 p1 p2 g
           [Battle_start (combatant_info_of p1) (combatant_info_of p2)]
           = Inr (t', p1', p2', g', lg')" and
    w: "winner r = winner_of p1' p2'" and
    lg: "battle_log r = lg' @ [Battle_end (t' - 1) (winner_of p1' p2')
                                         (current_hp p1') (current_hp p2')]"
    by blast
  from fetchPokemonForBattle_InrD [OF f1] obtain d1 where
    d1: "remote (pokemon1 inp) = Some d1" "name p1 = api_name d1" "0 < current_hp p1" by blast
  from fetchPokemonForBattle_InrD [OF f2] obtain d2 where
    d2: "remote (pokemon2 inp) = Some d2" "name p2 = api_name d2" "0 < current_hp p2" by blast
  note L = battle_loop_props [OF lp d1(3) d2(3)]
  define ts where
    "ts = drop (length [Battle_start (combatant_info_of p1) (combatant_info_of p2)]) lg'"
  let ?N = "maxTurns_of inp"
  from L(1) have l: "lg' = [Battle_start (combatant_info_of p1) (combatant_info_of p2)] @ ts"
    unfolding ts_def .
  from L(2) have n: "length ts = t' - 1" unfolding ts_def .
  from L(4) have tu: "list_all is_Turn ts" unfolding ts_def .
  from L(15) have bl: "\<forall>e \<in> set (attacks_of (butlast ts)). 0 < remaining_hp e"
    unfolding ts_def .
  note t1 = L(3) and cap = L(7) and stop = L(9)
  from t1 obtain k where k: "t' = Suc k" by (cases t') simp_all
  have a: "0 \<le> ?N \<longrightarrow> of_nat k \<le> ?N"
  proof (cases k)
    case 0
    then show ?thesis by simp
  next
    case (Suc j)
    with k cap have "(of_nat (Suc k) :: rat) \<le> ?N + 1" by simp
    then show ?thesis by simp
  qed
  have b: "?N < 0 \<longrightarrow> k = 0"
  proof (cases k)
    case 0
    then show ?thesis by simp
  next
    case (Suc j)
    with k cap have "(of_nat (Suc k) :: rat) \<le> ?N + 1" by simp
    then have "(of_nat k :: rat) \<le> ?N" by simp
    moreover have "(0::rat) \<le> of_nat k" by simp
    ultimately have "0 \<le> ?N" by (rule order_trans [rotated])
    then show ?thesis by simp
  qed
  have c: "current_hp p1' \<le> 0 \<or> current_hp p2' \<le> 0 \<or> ?N < of_nat k + 1"
    using stop k by (simp add: add.commute)
  from n k have n': "length ts = k" by simp
  from lg l k have e: "battle_log r = Battle_start (combatant_info_of p1) (combatant_info_of p2)
          # ts @ [Battle_end k (winner_of p1' p2') (current_hp p1') (current_hp p2')]"
    by simp
  have "battle_log r = Battle_start (combatant_info_of p1) (combatant_info_of p2)
          # ts @ [Battle_end k (winner_of p1' p2') (current_hp p1') (current_hp p2')] \<and>
        list_all is_Turn ts \<and> length ts = k \<and>
        (0 \<le> ?N \<longrightarrow> of_nat k \<le> ?N) \<and>
        (?N < 0 \<longrightarrow> k = 0) \<and>
        (current_hp p1' \<le> 0 \<or> current_hp p2' \<le> 0 \<or> ?N < of_nat k + 1) \<and>
        (\<forall>e \<in> set (attacks_of (butlast ts)). 0 < remaining_hp e)"
    using e tu n' a b c bl by (intro conjI)
  then show ?thesis by blast
qed

theorem battle_within_turn_cap_witness:
  "battle_pokemon example_remote exact half_draws mewtwo_vs_rattata
     = Returned (Success mewtwo_vs_rattata_result) \<and>
   (\<exists>st ts n w h1 h2.
      battle_log mewtwo_vs_rattata_result = st # ts @ [Battle_end n w h1 h2] \<and>
      list_all is_Turn ts \<and> length ts = n \<and>
      (0 \<le> maxTurns_of mewtwo_vs_rattata \<longrightarrow> of_nat n \<le> maxTurns_of mewtwo_vs_rattata) \<and>
      (maxTurns_of mewtwo_vs_rattata < 0 \<longrightarrow> n = 0) \<and>
      (h1 \<le> 0 \<or> h2 \<le> 0 \<or> maxTurns_of mewtwo_vs_rattata < of_nat n + 1) \<and>
      (\<forall>e \<in> set (attacks_of (butlast ts)). 0 < remaining_hp e))"
proof
  show "battle_pokemon example_remote exact half_draws mewtwo_vs_rattata
          = Returned (Success mewtwo_vs_rattata_result)"
    by (rule example_run)
  show "\<exists>st ts n w h1 h2.
      battle_log mewtwo_vs_rattata_result = st # ts @ [Battle_end n w h1 h2] \<and>
      list_all is_Turn ts \<and> length ts = n \<and>
      (0 \<le> maxTurns_of mewtwo_vs_rattata \<longrightarrow> of_nat n \<le> maxTurns_of mewtwo_vs_rattata) \<and>
      (maxTurns_of mewtwo_vs_rattata < 0 \<longrightarrow> n = 0) \<and>
      (h1 \<le> 0 \<or> h2 \<le> 0 \<or> maxTurns_of mewtwo_vs_rattata < of_nat n + 1) \<and>
      (\<forall>e \<in> set (attacks_of (butlast ts)). 0 < remaining_hp e)"
    by (rule battle_within_turn_cap [OF example_run])
qed

text \<open>
  C9. When \<open>turns\<close> is omitted or is \<open>0\<close>, the cap used is \<open>10\<close>: the battle is the one
  that \<open>turns = 10\<close> gives, and a battle that returns a result has simulated at least one
  turn and at most ten.
\<close>

theorem zero_turns_means_default_cap:
  assumes "turns inp = None \<or> turns inp = Some 0"
  shows "maxTurns_of inp = 10 \<and>
         battle_pokemon remote fl g inp = battle_pokemon remote fl g (inp\<lparr>turns := Some 10\<rparr>) \<and>
         (\<forall>r. battle_pokemon remote fl g inp = Returned (Success r) \<longrightarrow>
            (\<exists>lg n w h1 h2. battle_log r = lg @ [Battle_end n w h1 h2] \<and> 1 \<le> n \<and> n \<le> 10))"
proof -
  from assms have m: "maxTurns_of inp = 10" by (auto simp: maxTurns_of_def)
  have m': "maxTurns_of (inp\<lparr>turns := Some 10\<rparr>) = 10" by (simp add: maxTurns_of_def)
  have "battle_body remote fl g inp = battle_body remote fl g (inp\<lparr>turns := Some 10\<rparr>)"
    unfolding battle_body_def m m' by (simp cong: sum.case_cong)
  then have e: "battle_pokemon remote fl g inp
                = battle_pokemon remote fl g (inp\<lparr>turns := Some 10\<rparr>)"
    by (simp add: battle_pokemon_def)
  have "\<exists>lg n w h1 h2. battle_log r = lg @ [Battle_end n w h1 h2] \<and> 1 \<le> n \<and> n \<le> 10"
    if assms: "battle_pokemon remote fl g inp = Returned (Success r)" for r
  proof -
  from battle_body_InrD [OF battle_pokemon_SuccessD [OF assms]] obtain p1 p2 t' p1' p2' g' lg' where
      f1: "fetchPokemonForBattle remote (pokemon1 inp) = Inr p1" and
      f2: "fetchPokemonForBattle remote (pokemon2 inp) = Inr p2" and
      lp: "battle_loop fl (maxTurns_of inp) 1 p1 p2 g
             [Battle_start (combatant_info_of p1) (combatant_info_of p2)]
             = Inr (t', p1', p2', g', lg')" and
      w: "winner r = winner_of p1' p2'" and
      lg: "battle_log r = lg' @ [Battle_end (t' - 1) (winner_of p1' p2')
                                           (current_hp p1') (current_hp p2')]"
      by blast
    from fetchPokemonForBattle_InrD [OF f1] obtain d1 where
      d1: "remote (pokemon1 inp) = Some d1" "name p1 = api_name d1" "0 < current_hp p1" by blast
    from fetchPokemonForBattle_InrD [OF f2] obtain d2 where
      d2: "remote (pokemon2 inp) = Some d2" "name p2 = api_name d2" "0 < current_hp p2" by blast
    note L = battle_loop_props [OF lp d1(3) d2(3)]
    from L(8) m have "1 < t'" by simp
    with L(7) m have "(of_nat t' :: rat) \<le> of_nat 11" by simp
    then have "t' \<le> 11" unfolding of_nat_le_iff .
    with \<open>1 < t'\<close> have "1 \<le> t' - 1 \<and> t' - 1 \<le> 10" by arith
    with lg have "battle_log r = lg' @ [Battle_end (t' - 1) (winner_of p1' p2')
                                           (current_hp p1') (current_hp p2')] \<and>
                  1 \<le> t' - 1 \<and> t' - 1 \<le> 10"
      by simp
    then show ?thesis by blast
  qed
  then have "\<forall>r. battle_pokemon remote fl g inp = Returned (Success r) \<longrightarrow>
            (\<exists>lg n w h1 h2. battle_log r = lg @ [Battle_end n w h1 h2] \<and> 1 \<le> n \<and> n \<le> 10)"
    by (intro allI impI)
  with m e show ?thesis by (intro conjI)
qed

theorem zero_turns_means_default_cap_witness:
  "(turns mewtwo_vs_rattata = None \<or> turns mewtwo_vs_rattata = Some 0) \<and>
   battle_pokemon example_remote exact half_draws mewtwo_vs_rattata
     = Returned (Success mewtwo_vs_rattata_result) \<and>
   maxTurns_of mewtwo_vs_rattata = 10 \<and>
   (\<exists>lg n w h1 h2. battle_log mewtwo_vs_rattata_result = lg @ [Battle_end n w h1 h2] \<and>
      1 \<le> n \<and> n \<le> 10)"
proof -
  have t: "turns mewtwo_vs_rattata = None \<or> turns mewtwo_vs_rattata = Some 0"
    by (simp add: mewtwo_vs_rattata_def)
  note c = zero_turns_means_default_cap [OF t, of example_remote exact half_draws]
  from c have m: "maxTurns_of mewtwo_vs_rattata = 10" by (rule conjunct1)
  note c2 = c [THEN conjunct2, THEN conjunct2, THEN spec, THEN mp, OF example_run]
  from t example_run m c2 show ?thesis by (intro conjI)
qed

text \<open>
  C10. When both combatants enter the loop with positive hit points, the loop leaves
  both at zero or above and at most one of them at zero, so the winner is never decided
  by the branch for both at zero; every attack of the loop left its target at zero or
  above, and no attack follows one that left its target at zero.
\<close>

theorem at_most_one_combatant_at_zero:
  assumes "battle_loop fl maxTurns currentTurn p1 p2 g battleLog = Inr (t', p1', p2', g', lg')"
    and "0 < current_hp p1" and "0 < current_hp p2"
  shows "0 \<le> current_hp p1' \<and> 0 \<le> current_hp p2' \<and>
         \<not> (current_hp p1' \<le> 0 \<and> current_hp p2' \<le> 0) \<and>
         (\<forall>e \<in> set (attacks_of (drop (length battleLog) lg')). 0 \<le> remaining_hp e) \<and>
         faint_ends_attacks (attacks_of (drop (length battleLog) lg')) \<and>
         winner_of p1' p2' =
           (if current_hp p1' \<le> 0 then name p2'
            else if current_hp p2' \<le> 0 then name p1'
            else if current_hp p1' > current_hp p2' then name p1'
            else if current_hp p2' > current_hp p1' then name p2'
            else ''draw'')"
proof -
  note L = battle_loop_props [OF assms]
  from L(12) have z: "\<not> (current_hp p1' \<le> 0 \<and> current_hp p2' \<le> 0)" by linarith
  then have w: "winner_of p1' p2' =
           (if current_hp p1' \<le> 0 then name p2'
            else if current_hp p2' \<le> 0 then name p1'
            else if current_hp p1' > current_hp p2' then name p1'
            else if current_hp p2' > current_hp p1' then name p2'
            else ''draw'')"
    unfolding winner_of_def by simp
  from L(10) L(11) z L(14) L(13) w show ?thesis by (intro conjI)
qed

theorem at_most_one_combatant_at_zero_witness:
  "0 < current_hp mewtwo \<and> 0 < current_hp rattata \<and>
   (\<exists>t' p1' p2' g' lg'.
      battle_loop exact 10 1 mewtwo rattata half_draws [] = Inr (t', p1', p2', g', lg') \<and>
      0 \<le> current_hp p1' \<and> 0 \<le> current_hp p2' \<and>
      \<not> (current_hp p1' \<le> 0 \<and> current_hp p2' \<le> 0))"
proof -
  have h: "0 < current_hp mewtwo" "0 < current_hp rattata"
    by (simp_all add: rattata_def mewtwo_def)
  obtain t' p1' p2' g' lg' where
    r: "battle_loop exact 10 1 mewtwo rattata half_draws [] = Inr (t', p1', p2', g', lg')"
  proof (cases "battle_loop exact 10 1 mewtwo rattata half_draws []")
    case (Inl e)
    with example_loop show ?thesis by simp
  next
    case (Inr x)
    with that show ?thesis by (cases x) auto
  qed
  note c = at_most_one_combatant_at_zero [OF r h]
  have "battle_loop exact 10 1 mewtwo rattata half_draws [] = Inr (t', p1', p2', g', lg') \<and>
      0 \<le> current_hp p1' \<and> 0 \<le> current_hp p2' \<and>
      \<not> (current_hp p1' \<le> 0 \<and> current_hp p2' \<le> 0)"
    using r c [THEN conjunct1] c [THEN conjunct2, THEN conjunct1]
      c [THEN conjunct2, THEN conjunct2, THEN conjunct1]
    by (intro conjI)
  then have "\<exists>t' p1' p2' g' lg'.
      battle_loop exact 10 1 mewtwo rattata half_draws [] = Inr (t', p1', p2', g', lg') \<and>
      0 \<le> current_hp p1' \<and> 0 \<le> current_hp p2' \<and>
      \<not> (current_hp p1' \<le> 0 \<and> current_hp p2' \<le> 0)"
    by blast
  with h show ?thesis by (intro conjI)
qed
section \<open>The tools and their failures\<close>



lemma try_catch_Inr: "body = Inr r \<Longrightarrow> try_catch body = Returned r"
  by (simp add: try_catch_def)













section \<open>The schedule import\<close>

text \<open>
  A sequence of \<open>INSERT OR REPLACE\<close> statements keeps the rows of the table that are
  in conflict with none of the new rows, and appends what the same sequence leaves in an
  empty table. When every new row is in conflict with itself, that is, when it carries
  its key, running the sequence again changes nothing.
\<close>

lemma fold_replace_into:
  "fold (replace_into c) xs S = filter (\<lambda>r. \<forall>x \<in> set xs. \<not> c x r) S @ fold (replace_into c) xs []"
proof (induction xs arbitrary: S)
  case Nil
  show ?case by simp
next
  case (Cons x xs)
  let ?P = "\<lambda>r. \<forall>y \<in> set xs. \<not> c y r"
  have "fold (replace_into c) (x # xs) S = fold (replace_into c) xs (replace_into c x S)"
    by simp
  also have "\<dots> = filter ?P (replace_into c x S) @ fold (replace_into c) xs []"
    by (rule Cons.IH)
  also have "filter ?P (replace_into c x S)
             = filter (\<lambda>r. \<forall>y \<in> set (x # xs). \<not> c y r) S @ filter ?P [x]"
    by (simp add: replace_into_def conj_commute)
  finally have a: "fold (replace_into c) (x # xs) S =
      filter (\<lambda>r. \<forall>y \<in> set (x # xs). \<not> c y r) S @ filter ?P [x] @ fold (replace_into c) xs []"
    by simp
  have "fold (replace_into c) (x # xs) [] = fold (replace_into c) xs [x]"
    by (simp add: replace_into_def)
  also have "\<dots> = filter ?P [x] @ fold (replace_into c) xs []"
    by (rule Cons.IH)
  finally have b: "fold (replace_into c) (x # xs) [] = filter ?P [x] @ fold (replace_into c) xs []" .
  show ?case unfolding a b ..
qed

lemma set_fold_replace_into: "set (fold (replace_into c) xs S) \<subseteq> set S \<union> set xs"
proof (induction xs arbitrary: S)
  case Nil
  show ?case by simp
next
  case (Cons x xs)
  have "set (fold (replace_into c) xs (replace_into c x S)) \<subseteq> set (replace_into c x S) \<union> set xs"
    by (rule Cons.IH)
  moreover have "set (replace_into c x S) \<subseteq> set S \<union> {x}"
    by (auto simp: replace_into_def)
  ultimately show ?case by auto
qed

lemma fold_replace_into_idem:
  assumes "\<forall>x \<in> set xs. c x x"
  shows "fold (replace_into c) xs (fold (replace_into c) xs S) = fold (replace_into c) xs S"
proof -
  let ?P = "\<lambda>r. \<forall>x \<in> set xs. \<not> c x r" and ?K = "fold (replace_into c) xs []"
  have s: "fold (replace_into c) xs S = filter ?P S @ ?K" by (rule fold_replace_into)
  have "set ?K \<subseteq> set xs" using set_fold_replace_into [of c xs "[]"] by simp
  with assms have k: "filter ?P ?K = []" by (auto simp: filter_empty_conv)
  have "fold (replace_into c) xs (filter ?P S @ ?K) = filter ?P (filter ?P S @ ?K) @ ?K"
    by (rule fold_replace_into)
  also have "\<dots> = filter ?P S @ ?K" using k by simp
  finally show ?thesis unfolding s .
qed

lemma fold_ignore_into_subset: "set xs \<subseteq> set T \<Longrightarrow> fold ignore_into xs T = T"
  by (induction xs arbitrary: T) (simp_all add: ignore_into_def)

lemma set_fold_ignore_into: "set (fold ignore_into xs T) = set T \<union> set xs"
  by (induction xs arbitrary: T) (auto simp: ignore_into_def)

lemma fold_ignore_into_idem: "fold ignore_into xs (fold ignore_into xs T) = fold ignore_into xs T"
  by (rule fold_ignore_into_subset) (simp add: set_fold_ignore_into)

lemma insertRoom_keyed:
  assumes "insertRoom (room_values_of room) db = Inr db'" and "room_id room \<noteq> None"
  shows "db' = db\<lparr>rooms := replace_into room_conflict (stored_room room) (rooms db)\<rparr>"
  using assms
  by (auto simp: insertRoom_def room_values_of_def stored_room_def localized_name_def rowid_for_def
           split: option.splits)

lemma insertTrack_keyed:
  assumes "insertTrack (track_values_of track) db = Inr db'" and "track_id track \<noteq> None"
  shows "db' = db\<lparr>tracks := replace_into track_conflict (stored_track track) (tracks db)\<rparr>"
  using assms
  by (auto simp: insertTrack_def track_values_of_def stored_track_def localized_name_def
                 rowid_for_def split: option.splits)

lemma insertSpeaker_keyed:
  assumes "insertSpeaker (speaker_values_of speaker) db = Inr db'"
  shows "db' = db\<lparr>speakers := replace_into speaker_conflict (stored_speaker speaker) (speakers db)\<rparr>"
  using assms
  by (auto simp: insertSpeaker_def speaker_values_of_def stored_speaker_def split: option.splits)

lemma insertTalk_keyed:
  assumes "insertTalk (talk_values_of talk) db = Inr db'" and "talk_id talk \<noteq> None"
  shows "db' = db\<lparr>talks := replace_into talk_conflict (stored_talk talk) (talks db)\<rparr>"
proof -
  from assms(2) obtain i where i: "talk_id talk = Some i" by auto
  from assms(1) obtain title start end' room where
    v: "tv_title (talk_values_of talk) = Some title" "tv_start (talk_values_of talk) = Some start"
       "tv_end (talk_values_of talk) = Some end'" "tv_room (talk_values_of talk) = Some room"
    by (auto simp: insertTalk_def split: option.splits)
  then have f: "talk_title talk \<noteq> None" "talk_start talk = Some start"
      "talk_end talk = Some end'" "talk_room talk = Some room"
      "title = (case talk_title talk of Some t \<Rightarrow> localized t | None \<Rightarrow> [])"
    by (auto simp: talk_values_of_def localized_name_def split: option.splits)
  have id: "tv_id (talk_values_of talk) = Some i" using i by (simp add: talk_values_of_def)
  have r: "talk_row_for (rowid_for (tv_id (talk_values_of talk)) (map t_id (talks db)))
             title start end' room (talk_values_of talk) = stored_talk talk"
    using i f by (simp add: id rowid_for_def stored_talk_def)
  from assms(1) v show ?thesis
    unfolding insertTalk_def by (simp add: r split: if_splits)
qed

lemma run_all_keyed:
  assumes step: "\<And>x db db'. x \<in> set xs \<Longrightarrow> stmt (f x) db = Inr db' \<Longrightarrow> db' = upd (g x) db"
  shows "run_all stmt (map f xs) db = Inr db' \<Longrightarrow> db' = fold upd (map g xs) db"
  using step
proof (induction xs arbitrary: db)
  case Nil
  then show ?case by simp
next
  case (Cons x xs)
  from Cons.prems(1) obtain db1 where a: "stmt (f x) db = Inr db1"
    and b: "run_all stmt (map f xs) db1 = Inr db'"
    by (auto split: sum.splits)
  from Cons.prems(2) [OF _ a] have "db1 = upd (g x) db" by simp
  moreover from Cons.IH [OF b] Cons.prems(2) have "db' = fold upd (map g xs) db1" by simp
  ultimately show ?case by simp
qed


lemma fold_db_rooms:
  "fold (\<lambda>x db. db\<lparr>rooms := replace_into room_conflict x (rooms db)\<rparr>) xs db
     = db\<lparr>rooms := fold (replace_into room_conflict) xs (rooms db)\<rparr>"
  by (induction xs arbitrary: db) simp_all

lemma fold_db_tracks:
  "fold (\<lambda>x db. db\<lparr>tracks := replace_into track_conflict x (tracks db)\<rparr>) xs db
     = db\<lparr>tracks := fold (replace_into track_conflict) xs (tracks db)\<rparr>"
  by (induction xs arbitrary: db) simp_all

lemma fold_db_speakers:
  "fold (\<lambda>x db. db\<lparr>speakers := replace_into speaker_conflict x (speakers db)\<rparr>) xs db
     = db\<lparr>speakers := fold (replace_into speaker_conflict) xs (speakers db)\<rparr>"
  by (induction xs arbitrary: db) simp_all

lemma run_all_insertRoom:
  assumes "run_all insertRoom (map room_values_of xs) db = Inr db'"
    and "list_all (\<lambda>room. room_id room \<noteq> None) xs"
  shows "db' = db\<lparr>rooms := fold (replace_into room_conflict) (map stored_room xs) (rooms db)\<rparr>"
proof -
  have "db' = fold (\<lambda>x db. db\<lparr>rooms := replace_into room_conflict x (rooms db)\<rparr>)
                (map stored_room xs) db"
  proof (rule run_all_keyed [OF _ assms(1)])
    fix x db db'
    assume "x \<in> set xs" and r: "insertRoom (room_values_of x) db = Inr db'"
    with assms(2) have "room_id x \<noteq> None" by (simp add: list_all_iff)
    from insertRoom_keyed [OF r this]
    show "db' = db\<lparr>rooms := replace_into room_conflict (stored_room x) (rooms db)\<rparr>" .
  qed
  then show ?thesis by (simp add: fold_db_rooms)
qed

lemma run_all_insertTrack:
  assumes "run_all insertTrack (map track_values_of xs) db = Inr db'"
    and "list_all (\<lambda>track. track_id track \<noteq> None) xs"
  shows "db' = db\<lparr>tracks := fold (replace_into track_conflict) (map stored_track xs) (tracks db)\<rparr>"
proof -
  have "db' = fold (\<lambda>x db. db\<lparr>tracks := replace_into track_conflict x (tracks db)\<rparr>)
                (map stored_track xs) db"
  proof (rule run_all_keyed [OF _ assms(1)])
    fix x db db'
    assume "x \<in> set xs" and r: "insertTrack (track_values_of x) db = Inr db'"
    with assms(2) have "track_id x \<noteq> None" by (simp add: list_all_iff)
    from insertTrack_keyed [OF r this]
    show "db' = db\<lparr>tracks := replace_into track_conflict (stored_track x) (tracks db)\<rparr>" .
  qed
  then show ?thesis by (simp add: fold_db_tracks)
qed

lemma run_all_insertSpeaker:
  assumes "run_all insertSpeaker (map speaker_values_of xs) db = Inr db'"
  shows "db' = db\<lparr>speakers := fold (replace_into speaker_conflict) (map stored_speaker xs)
                                (speakers db)\<rparr>"
proof -
  have "db' = fold (\<lambda>x db. db\<lparr>speakers := replace_into speaker_conflict x (speakers db)\<rparr>)
                (map stored_speaker xs) db"
  proof (rule run_all_keyed [OF _ assms(1)])
    fix x db db'
    assume "insertSpeaker (speaker_values_of x) db = Inr db'"
    from insertSpeaker_keyed [OF this]
    show "db' = db\<lparr>speakers := replace_into speaker_conflict (stored_speaker x) (speakers db)\<rparr>" .
  qed
  then show ?thesis by (simp add: fold_db_speakers)
qed

lemma insertTalkSpeaker_keyed:
  assumes "insertTalkSpeaker x db = Inr db'" and "fst x \<noteq> None" and "snd x \<noteq> None"
  shows "db' = db\<lparr>talk_speakers := ignore_into x (talk_speakers db)\<rparr>"
  using assms by (auto simp: insertTalkSpeaker_def ignore_into_def split: if_splits)

lemma run_all_insertTalkSpeaker:
  assumes "run_all insertTalkSpeaker ps db = Inr db'"
    and "\<forall>p \<in> set ps. fst p \<noteq> None \<and> snd p \<noteq> None"
  shows "db' = db\<lparr>talk_speakers := fold ignore_into ps (talk_speakers db)\<rparr>"
  using assms
proof (induction ps arbitrary: db)
  case Nil
  then show ?case by simp
next
  case (Cons p ps)
  from Cons.prems(1) obtain db1 where a: "insertTalkSpeaker p db = Inr db1"
    and b: "run_all insertTalkSpeaker ps db1 = Inr db'"
    by (auto split: sum.splits)
  from Cons.prems(2) have p: "fst p \<noteq> None" "snd p \<noteq> None" by simp_all
  from insertTalkSpeaker_keyed [OF a p] Cons.IH [OF b] Cons.prems(2) show ?case by simp
qed

lemma insert_talk_and_speakers_keyed:
  assumes "insert_talk_and_speakers talk db = Inr db'" and "keyed_talk talk"
  shows "db' = db\<lparr>talks := replace_into talk_conflict (stored_talk talk) (talks db),
                   talk_speakers := fold ignore_into (speaker_pairs talk) (talk_speakers db)\<rparr>"
proof -
  from assms(1) obtain db1 where a: "insertTalk (talk_values_of talk) db = Inr db1"
    and b: "run_all insertTalkSpeaker (speaker_pairs talk) db1 = Inr db'"
    by (auto simp: insert_talk_and_speakers_def speaker_pairs_def split: sum.splits)
  from assms(2) have k: "talk_id talk \<noteq> None"
    "\<forall>p \<in> set (speaker_pairs talk). fst p \<noteq> None \<and> snd p \<noteq> None"
    by (auto simp: keyed_talk_def speaker_pairs_def list_all_iff)
  from insertTalk_keyed [OF a k(1)] run_all_insertTalkSpeaker [OF b k(2)] show ?thesis by simp
qed

lemma run_all_insert_talk_and_speakers:
  assumes "run_all insert_talk_and_speakers ts db = Inr db'" and "list_all keyed_talk ts"
  shows "db' = db\<lparr>talks := fold (replace_into talk_conflict) (map stored_talk ts) (talks db),
                   talk_speakers := fold ignore_into (concat (map speaker_pairs ts))
                                      (talk_speakers db)\<rparr>"
  using assms
proof (induction ts arbitrary: db)
  case Nil
  then show ?case by simp
next
  case (Cons t ts)
  from Cons.prems(1) obtain db1 where a: "insert_talk_and_speakers t db = Inr db1"
    and b: "run_all insert_talk_and_speakers ts db1 = Inr db'"
    by (auto split: sum.splits)
  from Cons.prems(2) have k: "keyed_talk t" "list_all keyed_talk ts" by simp_all
  from insert_talk_and_speakers_keyed [OF a k(1)] Cons.IH [OF b k(2)] show ?case by simp
qed

lemma insertScheduleData_body_keyed:
  assumes "insertScheduleData_body d db = Inr db'" and "keyed_feed d"
  shows "db' = committed_tables d db"
proof -
  from assms(2) have k:
    "list_all (\<lambda>room. room_id room \<noteq> None) (each (data_rooms d))"
    "list_all (\<lambda>track. track_id track \<noteq> None) (each (data_tracks d))"
    "list_all keyed_talk (each (data_talks d))"
    by (simp_all add: keyed_feed_def)
  from assms(1) obtain db1 db2 db3 where
    r: "run_all insertRoom (map room_values_of (each (data_rooms d))) db = Inr db1" and
    t: "run_all insertTrack (map track_values_of (each (data_tracks d))) db1 = Inr db2" and
    s: "run_all insertSpeaker (map speaker_values_of (each (data_speakers d))) db2 = Inr db3" and
    l: "run_all insert_talk_and_speakers (each (data_talks d)) db3 = Inr db'"
    by (auto simp: insertScheduleData_body_def split: sum.splits)
  from run_all_insertRoom [OF r k(1)] run_all_insertTrack [OF t k(2)]
       run_all_insertSpeaker [OF s] run_all_insert_talk_and_speakers [OF l k(3)]
  show ?thesis by (simp add: committed_tables_def)
qed

lemma committed_tables_idem:
  assumes "keyed_feed d"
  shows "committed_tables d (committed_tables d db) = committed_tables d db"
proof -
  have a: "\<forall>x \<in> set (map stored_talk (each (data_talks d))). talk_conflict x x"
    by (simp add: talk_conflict_def)
  have b: "\<forall>x \<in> set (map stored_room (each (data_rooms d))). room_conflict x x"
    by (simp add: room_conflict_def)
  have c: "\<forall>x \<in> set (map stored_track (each (data_tracks d))). track_conflict x x"
    by (simp add: track_conflict_def)
  from assms have e: "\<forall>x \<in> set (map stored_speaker (each (data_speakers d))). speaker_conflict x x"
    by (auto simp: keyed_feed_def list_all_iff speaker_conflict_def stored_speaker_def)
  note i = fold_replace_into_idem [of _ talk_conflict, OF a]
    fold_replace_into_idem [of _ room_conflict, OF b]
    fold_replace_into_idem [of _ track_conflict, OF c]
    fold_replace_into_idem [of _ speaker_conflict, OF e]
  show ?thesis
    by (simp add: committed_tables_def i fold_ignore_into_idem)
qed

lemma example_import:
  "insertScheduleData example_feed empty_db = (Inr example_stats, example_tables)"
  "insertScheduleData example_feed example_tables = (Inr example_stats, example_tables)"
  by code_simp+

lemma example_feed_keyed: "keyed_feed example_feed"
  by code_simp

text \<open>
  C8 as stated fails: a room of the feed without \<open>id\<close> is bound with \<open>NULL\<close> for its
  primary key and stored under a fresh row id, so the second run of the import on the
  same feed adds a second row for it.
\<close>

theorem keyless_room_is_stored_again:
  "rooms (snd (insertScheduleData keyless_room_feed empty_db))
     = [\<lparr>r_id = 1, r_name = ''Hall'', r_description = None\<rparr>] \<and>
   rooms (snd (insertScheduleData keyless_room_feed
                 (snd (insertScheduleData keyless_room_feed empty_db))))
     = [\<lparr>r_id = 1, r_name = ''Hall'', r_description = None\<rparr>,
        \<lparr>r_id = 2, r_name = ''Hall'', r_description = None\<rparr>]"
  by code_simp

text \<open>
  C8, amended. For every feed whose entities carry their keys (every room, track and talk
  its \<open>id\<close>, every speaker its \<open>code\<close>, no \<open>null\<close> among the speakers of a talk) and
  every state of the tables, a second run of the import on the same feed leaves all five
  tables (\<open>talks\<close>, \<open>speakers\<close>, \<open>rooms\<close>, \<open>tracks\<close>, \<open>talk_speakers\<close>) with the
  rows they had after the first run, whether a run commits or is rolled back.
\<close>

theorem import_twice_same_rows:
  assumes "keyed_feed d"
  shows "snd (insertScheduleData d (snd (insertScheduleData d db))) = snd (insertScheduleData d db)"
proof (cases "insertScheduleData_body d db")
  case (Inl e)
  then show ?thesis by (simp add: insertScheduleData_def)
next
  case (Inr db1)
  then have s1: "snd (insertScheduleData d db) = db1" by (simp add: insertScheduleData_def)
  from insertScheduleData_body_keyed [OF Inr assms] have c1: "db1 = committed_tables d db" .
  show ?thesis
  proof (cases "insertScheduleData_body d db1")
    case (Inl e)
    with s1 show ?thesis by (simp add: insertScheduleData_def)
  next
    case db2: (Inr db2)
    from insertScheduleData_body_keyed [OF db2 assms] c1 have "db2 = db1"
      by (simp add: committed_tables_idem [OF assms])
    with s1 db2 show ?thesis by (simp add: insertScheduleData_def)
  qed
qed

theorem import_twice_same_rows_witness:
  "keyed_feed example_feed \<and>
   snd (insertScheduleData example_feed empty_db) = example_tables \<and>
   fst (insertScheduleData example_feed example_tables) = Inr example_stats \<and>
   snd (insertScheduleData example_feed example_tables) = example_tables"
  using import_twice_same_rows [OF example_feed_keyed, of empty_db] example_import
    example_feed_keyed
  by simp

end
